theory Spec2Isabelle
  imports Complex_Main "HOL-Library.Log_Nat"
begin

section \<open>The tracing viewer (app/app.py): data model\<close>

text \<open>
  The module is a Streamlit page. It loads a list of JSON records, keeps a navigation
  index inside the list, renders the PDF page a record points to (through PyMuPDF,
  imported as \<open>fitz\<close>, behind Streamlit's \<open>cache_data\<close> decorator) and draws
  the record's bounding box on the rendered page with Pillow.

  Python exceptions are values: a function that can raise returns \<open>exc + 'a\<close>, with
  \<open>Inl\<close> the exception. An exception is identified by the name of its class.
\<close>

datatype exc = Exc (exc_class: string)

text \<open>
  A Python float is an IEEE 754 double: one of the three special values, or a finite
  number, modelled by the rational number that the double denotes exactly. Arithmetic on
  floats rounds to the nearest double (see \<open>round_double\<close> below). The sign of a zero
  is not modelled; \<open>int\<close> does not see it.
\<close>

datatype pyfloat = Finite rat | PosInf | NegInf | NaN

text \<open>
  What \<open>json.loads\<close> returns: \<open>None\<close>, a bool, an int, a float, a str, a list
  or a dict. A dict is the list of its items; its keys are distinct, and \<open>d.get(k)\<close>
  is \<open>map_of d k\<close>.
\<close>

datatype json =
    JNull
  | JBool bool
  | JInt int
  | JFloat pyfloat
  | JStr string
  | JList "json list"
  | JDict "(string \<times> json) list"

section \<open>What the module takes from outside\<close>

text \<open>
  PyMuPDF, Pillow and the file system are not part of the module. What the module asks
  of them is gathered in one record, so that every definition below says which outside
  answer it depends on.
\<close>

type_synonym bytes = "nat list"
type_synonym colour = "nat \<times> nat \<times> nat"
type_synonym rect = "int \<times> int \<times> int \<times> int"

text \<open>A page object of an opened document (opaque), and a document as its pages.\<close>

type_synonym page = nat
type_synonym document = "page list"

record pixmap =
  pix_width :: int
  pix_height :: int
  pix_samples :: bytes

datatype font = TrueType string nat | DefaultFont

record world =
  fitz_available :: bool
    \<comment> \<open>\<open>fitz is not None\<close>: the import at the top of the module succeeded\<close>
  fitz_open_path :: "string \<Rightarrow> exc + document"
    \<comment> \<open>\<open>fitz.open(path)\<close>\<close>
  fitz_open_stream :: "bytes \<Rightarrow> exc + document"
    \<comment> \<open>\<open>fitz.open(stream=raw, filetype="pdf")\<close>\<close>
  get_pixmap :: "page \<Rightarrow> pyfloat \<Rightarrow> exc + pixmap"
    \<comment> \<open>\<open>page.get_pixmap(matrix=fitz.Matrix(zoom, zoom), alpha=False)\<close>\<close>
  int_of_str :: "string \<Rightarrow> int option"
    \<comment> \<open>\<open>int(s)\<close> on a str: \<open>None\<close> where it raises ValueError\<close>
  py_str :: "json \<Rightarrow> string"
    \<comment> \<open>\<open>str(v)\<close>\<close>
  rectangle_accepted :: "rect \<Rightarrow> bool"
    \<comment> \<open>whether \<open>ImageDraw.rectangle\<close> draws these coordinates or raises ValueError\<close>
  truetype_found :: bool
    \<comment> \<open>\<open>ImageFont.truetype("DejaVuSans.ttf", 36)\<close> does not raise OSError\<close>
  textbbox :: "font \<Rightarrow> string \<Rightarrow> rect"
    \<comment> \<open>\<open>draw.textbbox((0, 0), text, font=font)\<close>\<close>
  pdf_path_exists :: bool
    \<comment> \<open>\<open>PDF_PATH.exists()\<close>\<close>

section \<open>Images\<close>

text \<open>
  A Pillow image is its mode, its size, the data it was created from and the drawing
  calls made on it since, oldest first. The pixels a drawing call paints are Pillow's
  business; which calls the module makes, and with which arguments, is the module's.
\<close>

datatype draw_op =
    DrawText "int \<times> int" string colour font
  | DrawRectangle rect colour int

datatype img_data = Filled colour | Samples bytes

record image =
  img_mode :: string
  img_size :: "int \<times> int"
  img_data :: img_data
  img_ops :: "draw_op list"

text \<open>\<open>Image.new(mode, size, color)\<close>: Pillow refuses a negative width or height.\<close>

definition image_new :: "string \<Rightarrow> int \<times> int \<Rightarrow> colour \<Rightarrow> exc + image" where
  "image_new mode sz color =
     (if fst sz < 0 \<or> snd sz < 0 then Inl (Exc ''ValueError'')
      else Inr \<lparr>img_mode = mode, img_size = sz, img_data = Filled color, img_ops = []\<rparr>)"

text \<open>
  \<open>Image.frombytes(mode, size, data)\<close>: the same size check, and for a non-empty RGB
  image the data must hold exactly three bytes for each pixel.
\<close>

definition image_frombytes :: "string \<Rightarrow> int \<times> int \<Rightarrow> bytes \<Rightarrow> exc + image" where
  "image_frombytes mode sz data =
     (if fst sz < 0 \<or> snd sz < 0 then Inl (Exc ''ValueError'')
      else if fst sz \<noteq> 0 \<and> snd sz \<noteq> 0 \<and> int (length data) \<noteq> fst sz * snd sz * 3
        then Inl (Exc ''ValueError'')
      else Inr \<lparr>img_mode = mode, img_size = sz, img_data = Samples data, img_ops = []\<rparr>)"

text \<open>
  \<open>draw.rectangle([x0, y0, x1, y1], outline=..., width=...)\<close> on
  \<open>ImageDraw.Draw(img)\<close>: the image gains the call, or Pillow raises ValueError.
\<close>

definition draw_rectangle :: "world \<Rightarrow> image \<Rightarrow> rect \<Rightarrow> colour \<Rightarrow> int \<Rightarrow> exc + image" where
  "draw_rectangle w img r outline width =
     (if rectangle_accepted w r
      then Inr (img\<lparr>img_ops := img_ops img @ [DrawRectangle r outline width]\<rparr>)
      else Inl (Exc ''ValueError''))"

section \<open>Python's arithmetic on JSON values\<close>

text \<open>\<open>int(x)\<close> on a finite float truncates towards zero.\<close>

definition trunc_rat :: "rat \<Rightarrow> int" where
  "trunc_rat q = (if 0 \<le> q then \<lfloor>q\<rfloor> else \<lceil>q\<rceil>)"

text \<open>
  Rounding a rational number to a double. \<open>pow2 k\<close> is two to the power \<open>k\<close> and
  \<open>floor_log2 q\<close> the binary exponent of a positive \<open>q\<close>, found from the bit lengths
  of its numerator and denominator. A double has 53 significant bits and its last bit
  is worth at least \<open>2^-1074\<close>; \<open>round_to q k\<close> is the multiple of \<open>2^k\<close> nearest to
  \<open>q\<close>, ties going to the even multiple. A number below \<open>2^1023\<close> cannot round up to
  \<open>2^1024\<close>, where infinity begins, so only the top binade is compared with it.
\<close>

definition pow2 :: "int \<Rightarrow> rat" where
  "pow2 k = (if 0 \<le> k then 2 ^ nat k else 1 / 2 ^ nat (- k))"

definition floor_log2 :: "rat \<Rightarrow> int" where
  "floor_log2 q =
     (let (a, b) = quotient_of q;
          d = bitlen a - bitlen b
      in if pow2 d \<le> q then d else d - 1)"

definition round_half_even :: "rat \<Rightarrow> int" where
  "round_half_even x =
     (let f = \<lfloor>x\<rfloor>; r = x - of_int f
      in if r < 1/2 then f
         else if 1/2 < r then f + 1
         else if even f then f else f + 1)"

definition round_to :: "rat \<Rightarrow> int \<Rightarrow> rat" where
  "round_to q k = of_int (round_half_even (q / pow2 k)) * pow2 k"

definition round_binade :: "rat \<Rightarrow> int \<Rightarrow> pyfloat" where
  "round_binade q e =
     (if e < 1023 then Finite (round_to q (max (e - 52) (- 1074)))
      else if pow2 1024 \<le> \<bar>round_to q (e - 52)\<bar> then (if 0 < q then PosInf else NegInf)
      else Finite (round_to q (e - 52)))"

definition round_double :: "rat \<Rightarrow> pyfloat" where
  "round_double q = (if q = 0 then Finite 0 else round_binade q (floor_log2 \<bar>q\<bar>))"

text \<open>
  \<open>json.loads\<close> on a decimal literal with a fraction or an exponent: the nearest
  double.
\<close>

definition json_float :: "rat \<Rightarrow> json" where
  "json_float q = JFloat (round_double q)"

text \<open>
  \<open>f * n\<close> for a float \<open>f\<close> and an int \<open>n\<close>. Python first converts the int to a
  float, which rounds an int of more than 53 bits and raises OverflowError for one
  beyond the range of doubles, and then multiplies the two doubles.
\<close>

definition int_to_float :: "int \<Rightarrow> exc + rat" where
  "int_to_float n =
     (case round_double (of_int n) of
        Finite v \<Rightarrow> Inr v
      | _ \<Rightarrow> Inl (Exc ''OverflowError''))"

fun float_mul :: "pyfloat \<Rightarrow> rat \<Rightarrow> pyfloat" where
  "float_mul (Finite q) v = round_double (q * v)"
| "float_mul PosInf v = (if 0 < v then PosInf else if v < 0 then NegInf else NaN)"
| "float_mul NegInf v = (if 0 < v then NegInf else if v < 0 then PosInf else NaN)"
| "float_mul NaN v = NaN"

definition float_mul_int :: "pyfloat \<Rightarrow> int \<Rightarrow> exc + pyfloat" where
  "float_mul_int f n =
     (case int_to_float n of
        Inl e \<Rightarrow> Inl e
      | Inr v \<Rightarrow> Inr (float_mul f v))"

text \<open>
  \<open>v * n\<close> for a JSON value \<open>v\<close> and an int \<open>n\<close>: an int (a bool counts as 0 or 1)
  is multiplied exactly, a float as above, a str or a list is repeated, \<open>None\<close> and a
  dict raise TypeError.
\<close>

fun py_mul :: "json \<Rightarrow> int \<Rightarrow> exc + json" where
  "py_mul JNull n = Inl (Exc ''TypeError'')"
| "py_mul (JBool b) n = Inr (JInt ((if b then 1 else 0) * n))"
| "py_mul (JInt i) n = Inr (JInt (i * n))"
| "py_mul (JFloat f) n =
     (case float_mul_int f n of Inl e \<Rightarrow> Inl e | Inr p \<Rightarrow> Inr (JFloat p))"
| "py_mul (JStr s) n = Inr (JStr (concat (replicate (nat n) s)))"
| "py_mul (JList xs) n = Inr (JList (concat (replicate (nat n) xs)))"
| "py_mul (JDict d) n = Inl (Exc ''TypeError'')"

text \<open>\<open>int(v)\<close> for a JSON value.\<close>

fun py_int :: "world \<Rightarrow> json \<Rightarrow> exc + int" where
  "py_int w JNull = Inl (Exc ''TypeError'')"
| "py_int w (JBool b) = Inr (if b then 1 else 0)"
| "py_int w (JInt i) = Inr i"
| "py_int w (JFloat (Finite q)) = Inr (trunc_rat q)"
| "py_int w (JFloat PosInf) = Inl (Exc ''OverflowError'')"
| "py_int w (JFloat NegInf) = Inl (Exc ''OverflowError'')"
| "py_int w (JFloat NaN) = Inl (Exc ''ValueError'')"
| "py_int w (JStr s) =
     (case int_of_str w s of None \<Rightarrow> Inl (Exc ''ValueError'') | Some i \<Rightarrow> Inr i)"
| "py_int w (JList xs) = Inl (Exc ''TypeError'')"
| "py_int w (JDict d) = Inl (Exc ''TypeError'')"

text \<open>\<open>d.get(k)\<close>: the value, or \<open>None\<close> when the key is missing.\<close>

definition dict_get :: "(string \<times> json) list \<Rightarrow> string \<Rightarrow> json" where
  "dict_get d k = (case map_of d k of None \<Rightarrow> JNull | Some v \<Rightarrow> v)"

section \<open>Index clamp\<close>

text \<open>
  \<^verbatim>\<open>
  def ensure_index_bounds(index: int, max_index: int) -> int:
      if index < 0:
          return 0
      if index > max_index:
          return max_index
      return index
  \<close>
\<close>

definition ensure_index_bounds :: "int \<Rightarrow> int \<Rightarrow> int" where
  "ensure_index_bounds index max_index =
     (if index < 0 then 0
      else if index > max_index then max_index
      else index)"

section \<open>Fallback image\<close>

text \<open>
  \<^verbatim>\<open>
  def build_placeholder_image(width: int = 900, height: int = 600) -> Image.Image:
      img = Image.new("RGB", (width, height), color=(245, 245, 245))
      draw = ImageDraw.Draw(img)
      text = "Image Placeholder"
      try:
          font = ImageFont.truetype("DejaVuSans.ttf", 36)
      except OSError:
          font = ImageFont.load_default()
      left, top, right, bottom = draw.textbbox((0, 0), text, font=font)
      text_width = right - left
      text_height = bottom - top
      x = (width - text_width) // 2
      y = (height - text_height) // 2
      draw.text((x, y), text, fill=(80, 80, 80), font=font)
      return img
  \<close>
\<close>

definition build_placeholder_image :: "world \<Rightarrow> int \<Rightarrow> int \<Rightarrow> exc + image" where
  "build_placeholder_image w width height =
     (case image_new ''RGB'' (width, height) (245, 245, 245) of
        Inl e \<Rightarrow> Inl e
      | Inr img \<Rightarrow>
          (let text = ''Image Placeholder'';
               font = (if truetype_found w then TrueType ''DejaVuSans.ttf'' 36 else DefaultFont);
               (left, top, right, bottom) = textbbox w font text;
               text_width = right - left;
               text_height = bottom - top;
               x = (width - text_width) div 2;
               y = (height - text_height) div 2
           in Inr (img\<lparr>img_ops := img_ops img @ [DrawText (x, y) text (80, 80, 80) font]\<rparr>)))"

section \<open>Page rasterizer\<close>

text \<open>
  \<open>doc.load_page(i)\<close>. The module calls it with \<open>max(0, ...)\<close> only, so the index is
  a natural number here; an index past the last page raises ValueError.
\<close>

definition load_page :: "document \<Rightarrow> nat \<Rightarrow> exc + page" where
  "load_page doc i = (if i < length doc then Inr (doc ! i) else Inl (Exc ''ValueError''))"

text \<open>
  The four lines that both render functions end with:
  \<^verbatim>\<open>
      mat = fitz.Matrix(zoom, zoom)
      pix = page.get_pixmap(matrix=mat, alpha=False)
      mode = "RGB"
      img = Image.frombytes(mode, (pix.width, pix.height), pix.samples)
  \<close>
\<close>

definition page_image :: "world \<Rightarrow> page \<Rightarrow> pyfloat \<Rightarrow> exc + image" where
  "page_image w pg zoom =
     (case get_pixmap w pg zoom of
        Inl e \<Rightarrow> Inl e
      | Inr pix \<Rightarrow> image_frombytes ''RGB'' (pix_width pix, pix_height pix) (pix_samples pix))"

text \<open>
  \<^verbatim>\<open>
  def render_pdf_page_from_path(path, page_index, zoom=2.0):
      if fitz is None:
          raise RuntimeError("PyMuPDF is not available. ...")
      with fitz.open(path) as doc:
          page_index = max(0, min(page_index, doc.page_count - 1))
          page = doc.load_page(page_index)
          ...
          return img
  \<close>
  These are the functions as written, without the decorator.
\<close>

definition render_pdf_page_from_path :: "world \<Rightarrow> string \<Rightarrow> int \<Rightarrow> pyfloat \<Rightarrow> exc + image" where
  "render_pdf_page_from_path w path page_index zoom =
     (if \<not> fitz_available w then Inl (Exc ''RuntimeError'')
      else case fitz_open_path w path of
        Inl e \<Rightarrow> Inl e
      | Inr doc \<Rightarrow>
          (case load_page doc (nat (max 0 (min page_index (int (length doc) - 1)))) of
             Inl e \<Rightarrow> Inl e
           | Inr pg \<Rightarrow> page_image w pg zoom))"

definition render_pdf_page_from_bytes :: "world \<Rightarrow> bytes \<Rightarrow> int \<Rightarrow> pyfloat \<Rightarrow> exc + image" where
  "render_pdf_page_from_bytes w raw page_index zoom =
     (if \<not> fitz_available w then Inl (Exc ''RuntimeError'')
      else case fitz_open_stream w raw of
        Inl e \<Rightarrow> Inl e
      | Inr doc \<Rightarrow>
          (case load_page doc (nat (max 0 (min page_index (int (length doc) - 1)))) of
             Inl e \<Rightarrow> Inl e
           | Inr pg \<Rightarrow> page_image w pg zoom))"

text \<open>The default of the \<open>zoom\<close> parameter, which every call in \<open>main\<close> uses.\<close>

definition default_zoom :: pyfloat where
  "default_zoom = Finite 2"

section \<open>Render cache\<close>

text \<open>
  Both render functions carry the decorator \<open>@st.cache_data\<close>. A cache is the table
  of stored results and, for the statements below, the number of times the decorated
  function's body has run.
\<close>

record 'k cache =
  cache_entries :: "'k \<rightharpoonup> image"
  render_calls :: nat

text \<open>
  Modelled from the spec: the decorator \<open>st.cache_data\<close> is Streamlit's, and its code
  is not in the module. This is the Render Cache of the specification: on a key hit the
  stored image is returned and the body does not run; on a miss the body runs, a result
  is stored under the key and returned, and a failure propagates with nothing stored. The
  key is the argument tuple, compared by equality.
\<close>

definition cache_data :: "('k \<Rightarrow> exc + image) \<Rightarrow> 'k cache \<Rightarrow> 'k \<Rightarrow> (exc + image) \<times> 'k cache" where
  "cache_data body c k =
     (case cache_entries c k of
        Some img \<Rightarrow> (Inr img, c)
      | None \<Rightarrow>
          (case body k of
             Inl e \<Rightarrow> (Inl e, c\<lparr>render_calls := Suc (render_calls c)\<rparr>)
           | Inr img \<Rightarrow>
               (Inr img, c\<lparr>cache_entries := (cache_entries c)(k \<mapsto> img),
                           render_calls := Suc (render_calls c)\<rparr>)))"

type_synonym path_key = "string \<times> int \<times> pyfloat"
type_synonym bytes_key = "bytes \<times> int \<times> pyfloat"

definition render_pdf_page_from_path_cached ::
  "world \<Rightarrow> path_key cache \<Rightarrow> string \<Rightarrow> int \<Rightarrow> pyfloat \<Rightarrow> (exc + image) \<times> path_key cache" where
  "render_pdf_page_from_path_cached w c path page_index zoom =
     cache_data (\<lambda>(p, i, z). render_pdf_page_from_path w p i z) c (path, page_index, zoom)"

definition render_pdf_page_from_bytes_cached ::
  "world \<Rightarrow> bytes_key cache \<Rightarrow> bytes \<Rightarrow> int \<Rightarrow> pyfloat \<Rightarrow> (exc + image) \<times> bytes_key cache" where
  "render_pdf_page_from_bytes_cached w c raw page_index zoom =
     cache_data (\<lambda>(r, i, z). render_pdf_page_from_bytes w r i z) c (raw, page_index, zoom)"

definition empty_cache :: "'k cache" where
  "empty_cache = \<lparr>cache_entries = Map.empty, render_calls = 0\<rparr>"

section \<open>The page: text, page number, overlay, display\<close>

text \<open>
  \<^verbatim>\<open>
  if isinstance(current_item, dict):
      markdown_text = current_item.get("text", "")
  else:
      markdown_text = str(current_item)
  \<close>
\<close>

definition markdown_text :: "world \<Rightarrow> json \<Rightarrow> json" where
  "markdown_text w current_item =
     (case current_item of
        JDict d \<Rightarrow> (case map_of d ''text'' of None \<Rightarrow> JStr [] | Some v \<Rightarrow> v)
      | _ \<Rightarrow> JStr (py_str w current_item))"

text \<open>
  \<^verbatim>\<open>
  page_no = 0
  if isinstance(current_item, dict):
      if current_item.get("page_no") is not None:
          page_no = int(current_item.get("page_no"))
      elif current_item.get("page") is not None:
          page_no = int(current_item.get("page"))
  \<close>
  These lines are outside the \<open>try\<close>: an exception of \<open>int\<close> leaves \<open>main\<close>.
\<close>

definition resolve_page_no :: "world \<Rightarrow> json \<Rightarrow> exc + int" where
  "resolve_page_no w current_item =
     (case current_item of
        JDict d \<Rightarrow>
          (if dict_get d ''page_no'' \<noteq> JNull then py_int w (dict_get d ''page_no'')
           else if dict_get d ''page'' \<noteq> JNull then py_int w (dict_get d ''page'')
           else Inr 0)
      | _ \<Rightarrow> Inr 0)"

text \<open>
  \<open>isinstance(bbox, (list, tuple)) and len(bbox) == 4\<close>, followed by
  \<open>x0, y0, x1, y1 = bbox\<close>. JSON has no tuples.
\<close>

fun unpack4 :: "json \<Rightarrow> (json \<times> json \<times> json \<times> json) option" where
  "unpack4 (JList [x0, y0, x1, y1]) = Some (x0, y0, x1, y1)"
| "unpack4 _ = None"

text \<open>\<open>int(v * n)\<close>.\<close>

definition scale :: "world \<Rightarrow> json \<Rightarrow> int \<Rightarrow> exc + int" where
  "scale w v n = (case py_mul v n of Inl e \<Rightarrow> Inl e | Inr p \<Rightarrow> py_int w p)"

text \<open>
  \<^verbatim>\<open>
  width, height = img.size
  x0, y0, x1, y1 = bbox
  x0 = int(x0 * width)
  x1 = int(x1 * width)
  y0 = int(y0 * height)
  y1 = int(y1 * height)
  \<close>
  The result is the list \<open>[x0, y0, x1, y1]\<close> handed to \<open>draw.rectangle\<close>.
\<close>

fun bbox_pixels :: "world \<Rightarrow> json \<times> json \<times> json \<times> json \<Rightarrow> int \<times> int \<Rightarrow> exc + rect" where
  "bbox_pixels w (x0, y0, x1, y1) (width, height) =
     (case scale w x0 width of Inl e \<Rightarrow> Inl e | Inr px0 \<Rightarrow>
      case scale w x1 width of Inl e \<Rightarrow> Inl e | Inr px1 \<Rightarrow>
      case scale w y0 height of Inl e \<Rightarrow> Inl e | Inr py0 \<Rightarrow>
      case scale w y1 height of Inl e \<Rightarrow> Inl e | Inr py1 \<Rightarrow>
        Inr (px0, py0, px1, py1))"

text \<open>
  \<^verbatim>\<open>
  if isinstance(current_item, dict) and current_item.get("bbox") is not None:
      bbox = current_item.get("bbox")
      if isinstance(bbox, (list, tuple)) and len(bbox) == 4:
          ...
          draw = ImageDraw.Draw(img)
          draw.rectangle([x0, y0, x1, y1], outline=(220, 20, 60), width=4)
  \<close>
  The result is the image that \<open>st.image\<close> is then given.
\<close>

definition draw_bbox :: "world \<Rightarrow> json \<Rightarrow> image \<Rightarrow> exc + image" where
  "draw_bbox w current_item img =
     (case current_item of
        JDict d \<Rightarrow>
          (if dict_get d ''bbox'' \<noteq> JNull then
             (case unpack4 (dict_get d ''bbox'') of
                Some box \<Rightarrow>
                  (case bbox_pixels w box (img_size img) of
                     Inl e \<Rightarrow> Inl e
                   | Inr r \<Rightarrow> draw_rectangle w img r (220, 20, 60) 4)
              | None \<Rightarrow> Inr img)
           else Inr img)
      | _ \<Rightarrow> Inr img)"

text \<open>What the right column puts on the page, in order.\<close>

datatype ui_call =
    Warning_fitz_required
  | Warning_pdf_not_found
  | Warning_render_failed int exc
  | St_image image

definition PDF_PATH :: string where
  "PDF_PATH = ''documents/tracing_positional_bias_in_finance_decision_making.pdf''"

text \<open>\<open>st.warning(...)\<close> and then \<open>st.image(build_placeholder_image(), ...)\<close>.\<close>

definition show_placeholder :: "world \<Rightarrow> ui_call \<Rightarrow> exc + ui_call list" where
  "show_placeholder w warning =
     (case build_placeholder_image w 900 600 of
        Inl e \<Rightarrow> Inl e
      | Inr ph \<Rightarrow> Inr [warning, St_image ph])"

text \<open>
  The rest of the \<open>try\<close> block once the render call has returned or raised, and the
  handler \<open>except Exception as exc\<close>.
\<close>

definition show_rendered :: "world \<Rightarrow> json \<Rightarrow> int \<Rightarrow> exc + image \<Rightarrow> exc + ui_call list" where
  "show_rendered w current_item page_no rendered =
     (case (case rendered of Inl e \<Rightarrow> Inl e | Inr img \<Rightarrow> draw_bbox w current_item img) of
        Inr img \<Rightarrow> Inr [St_image img]
      | Inl e \<Rightarrow> show_placeholder w (Warning_render_failed page_no e))"

record caches =
  path_cache :: "path_key cache"
  bytes_cache :: "bytes_key cache"

text \<open>
  The block \<open>with right_col:\<close> of \<open>main\<close>. \<open>Inl\<close> is an exception that leaves
  \<open>main\<close>.
\<close>

definition main_right_col ::
  "world \<Rightarrow> bytes option \<Rightarrow> caches \<Rightarrow> json \<Rightarrow> (exc + ui_call list) \<times> caches" where
  "main_right_col w pdf_upload cs current_item =
     (case resolve_page_no w current_item of
        Inl e \<Rightarrow> (Inl e, cs)
      | Inr page_no \<Rightarrow>
          (if \<not> fitz_available w then (show_placeholder w Warning_fitz_required, cs)
           else case pdf_upload of
             Some raw \<Rightarrow>
               (let (r, bc) = render_pdf_page_from_bytes_cached w (bytes_cache cs) raw page_no default_zoom
                in (show_rendered w current_item page_no r, cs\<lparr>bytes_cache := bc\<rparr>))
           | None \<Rightarrow>
               (if \<not> pdf_path_exists w then (show_placeholder w Warning_pdf_not_found, cs)
                else
                  (let (r, pc) = render_pdf_page_from_path_cached w (path_cache cs) PDF_PATH page_no default_zoom
                   in (show_rendered w current_item page_no r, cs\<lparr>path_cache := pc\<rparr>)))))"

section \<open>The specification's words, and concrete inputs\<close>

text \<open>
  The pixel rectangle as the specification writes it, with rounding to the nearest
  integer, for comparison with \<open>bbox_pixels\<close>.
\<close>

definition spec_pixel_rect :: "rat \<times> rat \<times> rat \<times> rat \<Rightarrow> int \<times> int \<Rightarrow> rect" where
  "spec_pixel_rect box dims =
     (case box of (x0, y0, x1, y1) \<Rightarrow> case dims of (W, H) \<Rightarrow>
        (round (x0 * of_int W), round (y0 * of_int H), round (x1 * of_int W), round (y1 * of_int H)))"

text \<open>A box of four floats, and the number a finite JSON number denotes.\<close>

definition float_box :: "rat \<times> rat \<times> rat \<times> rat \<Rightarrow> json \<times> json \<times> json \<times> json" where
  "float_box box =
     (case box of (x0, y0, x1, y1) \<Rightarrow>
        (JFloat (Finite x0), JFloat (Finite y0), JFloat (Finite x1), JFloat (Finite y1)))"

fun finite_number :: "json \<Rightarrow> rat option" where
  "finite_number (JInt i) = Some (of_int i)"
| "finite_number (JFloat (Finite q)) = Some q"
| "finite_number _ = None"

text \<open>
  One outside world for the closed statements: a ten-page document behind \<open>PDF_PATH\<close>
  and behind one byte string, pages two points wide and one high, a drawing primitive
  that accepts every rectangle.
\<close>

definition demo_doc :: document where
  "demo_doc = [0, 1, 2, 3, 4, 5, 6, 7, 8, 9]"

definition demo_pdf :: bytes where
  "demo_pdf = [37, 80, 68, 70]"

definition demo_get_pixmap :: "page \<Rightarrow> pyfloat \<Rightarrow> exc + pixmap" where
  "demo_get_pixmap pg zoom =
     (case zoom of
        Finite z \<Rightarrow>
          Inr \<lparr>pix_width = \<lceil>\<bar>z\<bar> * 2\<rceil>, pix_height = \<lceil>\<bar>z\<bar>\<rceil>,
               pix_samples = replicate (nat (\<lceil>\<bar>z\<bar> * 2\<rceil> * \<lceil>\<bar>z\<bar>\<rceil> * 3)) pg\<rparr>
      | _ \<Rightarrow> Inl (Exc ''ValueError''))"

text \<open>
  \<open>int(s)\<close> in the demo world: a string of ASCII decimal digits with an optional sign
  has its value, and any other string raises ValueError. (Python also accepts blanks
  around the number and underscores between digits; no such string occurs below.)
\<close>

fun decimal_value :: "string \<Rightarrow> int \<Rightarrow> int option" where
  "decimal_value [] acc = Some acc"
| "decimal_value (c # cs) acc =
     (if 48 \<le> (of_char c :: nat) \<and> (of_char c :: nat) \<le> 57
      then decimal_value cs (acc * 10 + (int (of_char c) - 48))
      else None)"

definition demo_int_of_str :: "string \<Rightarrow> int option" where
  "demo_int_of_str s =
     (case s of
        [] \<Rightarrow> None
      | c # cs \<Rightarrow>
          if cs \<noteq> [] \<and> c = CHR ''-'' then map_option uminus (decimal_value cs 0)
          else if cs \<noteq> [] \<and> c = CHR ''+'' then decimal_value cs 0
          else decimal_value s 0)"

definition demo_world :: world where
  "demo_world =
     \<lparr>fitz_available = True,
      fitz_open_path = (\<lambda>p. if p = PDF_PATH then Inr demo_doc else Inl (Exc ''FileNotFoundError'')),
      fitz_open_stream = (\<lambda>raw. if raw = demo_pdf then Inr demo_doc else Inl (Exc ''FileDataError'')),
      get_pixmap = demo_get_pixmap,
      int_of_str = demo_int_of_str,
      py_str = (\<lambda>v. []),
      rectangle_accepted = (\<lambda>r. True),
      truetype_found = False,
      textbbox = (\<lambda>f t. (0, 0, 100, 11)),
      pdf_path_exists = True\<rparr>"

definition empty_caches :: caches where
  "empty_caches = \<lparr>path_cache = empty_cache, bytes_cache = empty_cache\<rparr>"

text \<open>The image the demo backend renders for a page at zoom 2.\<close>

definition demo_image :: "page \<Rightarrow> image" where
  "demo_image pg =
     \<lparr>img_mode = ''RGB'', img_size = (4, 2), img_data = Samples (replicate 24 pg), img_ops = []\<rparr>"

text \<open>
  The same world with the drawing primitive of Pillow 9.5 and later, whose
  \<open>ImageDraw.rectangle\<close> asks for \<open>x1 >= x0\<close> and \<open>y1 >= y0\<close> and raises
  ValueError otherwise; and a record whose box has its corners swapped.
\<close>

definition strict_world :: world where
  "strict_world = demo_world\<lparr>rectangle_accepted := (\<lambda>(x0, y0, x1, y1). x0 \<le> x1 \<and> y0 \<le> y1)\<rparr>"

definition inverted_item :: json where
  "inverted_item =
     JDict [(''bbox'', JList [JFloat (Finite (3/4)), JFloat (Finite (3/4)),
                              JFloat (Finite (1/4)), JFloat (Finite (1/4))])]"

text \<open>
  The demo world with a document that opens and has no pages.
\<close>

definition no_pages_world :: world where
  "no_pages_world =
     demo_world\<lparr>fitz_open_path := (\<lambda>p. Inr []), fitz_open_stream := (\<lambda>raw. Inr [])\<rparr>"

text \<open>
  A coordinate that cannot overflow when it is multiplied by the side of an image: an
  int, or a float of magnitude at most \<open>2^900\<close>.
\<close>

fun moderate_number :: "json \<Rightarrow> bool" where
  "moderate_number (JInt i) = True"
| "moderate_number (JFloat (Finite q)) = (\<bar>q\<bar> \<le> 2 ^ 900)"
| "moderate_number _ = False"

text \<open>
  An exception \<open>e\<close> that comes out of the backend while a page of the opened document
  \<open>doc\<close> is rendered at zoom \<open>z\<close>: \<open>load_page\<close> on a document without pages, or
  \<open>get_pixmap\<close> or \<open>Image.frombytes\<close> (the two calls of \<open>page_image\<close>) on one of
  its pages.
\<close>

definition backend_raised :: "world \<Rightarrow> document \<Rightarrow> pyfloat \<Rightarrow> exc \<Rightarrow> bool" where
  "backend_raised w doc z e \<longleftrightarrow>
     doc = [] \<and> e = Exc ''ValueError'' \<or> (\<exists>pg \<in> set doc. page_image w pg z = Inl e)"

section \<open>Properties of the index clamp\<close>

text \<open>
  Claim C2. For every integer index and every \<open>max_index \<ge> 0\<close>, the clamp returns 0
  when the index is negative, \<open>max_index\<close> when the index exceeds it, and the index
  itself otherwise. Hence the result lies between 0 and \<open>max_index\<close>, and clamping
  twice is the same as clamping once.
\<close>

theorem ensure_index_bounds_spec:
  assumes "0 \<le> max_index"
  shows "(index < 0 \<longrightarrow> ensure_index_bounds index max_index = 0)
       \<and> (max_index < index \<longrightarrow> ensure_index_bounds index max_index = max_index)
       \<and> (0 \<le> index \<and> index \<le> max_index \<longrightarrow> ensure_index_bounds index max_index = index)
       \<and> 0 \<le> ensure_index_bounds index max_index
       \<and> ensure_index_bounds index max_index \<le> max_index
       \<and> ensure_index_bounds (ensure_index_bounds index max_index) max_index
           = ensure_index_bounds index max_index"
  using assms by (simp add: ensure_index_bounds_def)

theorem ensure_index_bounds_spec_witness:
  "ensure_index_bounds (- 5) 2 = 0
   \<and> ensure_index_bounds 7 2 = 2
   \<and> ensure_index_bounds 1 2 = 1
   \<and> ensure_index_bounds (ensure_index_bounds 7 2) 2 = ensure_index_bounds 7 2"
proof -
  have h: "(0::int) \<le> 2" by simp
  show ?thesis
    using ensure_index_bounds_spec [OF h, of "- 5"]
          ensure_index_bounds_spec [OF h, of 7]
          ensure_index_bounds_spec [OF h, of 1]
          ensure_index_bounds_spec [OF h, of 2]
    by simp
qed

section \<open>Properties of rounding to a double\<close>

lemma pow2_powi: "pow2 k = 2 powi k"
  by (simp add: pow2_def power_int_def power_inverse inverse_eq_divide power_one_over)

lemma pow2_pos: "0 < pow2 k"
  by (simp add: pow2_powi)

lemma pow2_less_iff: "pow2 i < pow2 j \<longleftrightarrow> i < j"
proof
  assume "i < j"
  then show "pow2 i < pow2 j"
    unfolding pow2_powi by (rule power_int_strict_increasing) simp
next
  assume less: "pow2 i < pow2 j"
  show "i < j"
  proof (rule ccontr)
    assume "\<not> i < j"
    then have "j \<le> i" by simp
    then have "pow2 j \<le> pow2 i"
      unfolding pow2_powi by (rule power_int_increasing) simp
    with less show False by simp
  qed
qed

lemma pow2_add: "pow2 (i + j) = pow2 i * pow2 j"
  by (simp add: pow2_powi power_int_add)

lemma pow2_nat: "pow2 (int n) = 2 ^ n"
  by (simp add: pow2_def)

text \<open>
  \<open>floor_log2 q\<close> is the binary exponent of a positive \<open>q\<close>: \<open>q\<close> lies between
  \<open>2^e\<close> and \<open>2^(e+1)\<close>. And \<open>round_half_even\<close> yields a nearest integer.
\<close>

lemma floor_log2_le:
  assumes "0 < q"
  shows "pow2 (floor_log2 q) \<le> q"
proof -
  obtain a b where ab: "quotient_of q = (a, b)"
    by (cases "quotient_of q")
  then have b: "0 < b" and q: "q = of_int a / of_int b"
    by (simp_all add: quotient_of_denom_pos quotient_of_div)
  with assms have a: "0 < a"
    by (simp add: zero_less_divide_iff)
  define d where "d = bitlen a - bitlen b"
  show ?thesis
  proof (cases "pow2 d \<le> q")
    case True
    then show ?thesis by (simp add: floor_log2_def ab d_def)
  next
    case False
    from bitlen_bounds [OF a] have la: "2 ^ nat (bitlen a - 1) \<le> a" by simp
    from bitlen_bounds [OF b] have lb: "b < 2 ^ nat (bitlen b)" by simp
    have a1: "1 \<le> bitlen a" using a by (simp add: bitlen_alt_def)
    have b0: "0 \<le> bitlen b" by (rule bitlen_nonneg)
    have "pow2 (bitlen a - 1) = of_int (2 ^ nat (bitlen a - 1))"
      using a1 by (simp add: pow2_def)
    also have "\<dots> \<le> of_int a" using la by (simp only: of_int_le_iff)
    finally have num: "pow2 (bitlen a - 1) \<le> of_int a" .
    have "(of_int b :: rat) < of_int (2 ^ nat (bitlen b))"
      using lb by (simp only: of_int_less_iff)
    also have "\<dots> = pow2 (bitlen b)" using b0 by (simp add: pow2_def)
    finally have den: "of_int b < pow2 (bitlen b)" .
    have "pow2 (d - 1) * pow2 (bitlen b) = pow2 (bitlen a - 1)"
      by (simp add: d_def flip: pow2_add)
    then have "pow2 (d - 1) * of_int b \<le> pow2 (bitlen a - 1)"
      using den pow2_pos [of "d - 1"] b
      by (metis less_eq_rat_def mult_left_mono)
    with num have "pow2 (d - 1) * of_int b \<le> of_int a" by simp
    then have "pow2 (d - 1) \<le> q"
      using b by (simp add: q pos_le_divide_eq)
    with False show ?thesis by (simp add: floor_log2_def ab d_def)
  qed
qed

lemma floor_log2_less:
  assumes "0 < q"
  shows "q < pow2 (floor_log2 q + 1)"
proof -
  obtain a b where ab: "quotient_of q = (a, b)"
    by (cases "quotient_of q")
  then have b: "0 < b" and q: "q = of_int a / of_int b"
    by (simp_all add: quotient_of_denom_pos quotient_of_div)
  with assms have a: "0 < a"
    by (simp add: zero_less_divide_iff)
  define d where "d = bitlen a - bitlen b"
  show ?thesis
  proof (cases "pow2 d \<le> q")
    case False
    then show ?thesis by (simp add: floor_log2_def ab d_def)
  next
    case True
    from bitlen_bounds [OF a] have la: "a < 2 ^ nat (bitlen a)" by simp
    from bitlen_bounds [OF b] have lb: "2 ^ nat (bitlen b - 1) \<le> b" by simp
    have a0: "0 \<le> bitlen a" by (rule bitlen_nonneg)
    have b1: "1 \<le> bitlen b" using b by (simp add: bitlen_alt_def)
    have "(of_int a :: rat) < of_int (2 ^ nat (bitlen a))"
      using la by (simp only: of_int_less_iff)
    also have "\<dots> = pow2 (bitlen a)" using a0 by (simp add: pow2_def)
    finally have num: "of_int a < pow2 (bitlen a)" .
    have "pow2 (bitlen b - 1) = of_int (2 ^ nat (bitlen b - 1))"
      using b1 by (simp add: pow2_def)
    also have "\<dots> \<le> of_int b" using lb by (simp only: of_int_le_iff)
    finally have den: "pow2 (bitlen b - 1) \<le> of_int b" .
    have "pow2 (bitlen a) = pow2 (d + 1) * pow2 (bitlen b - 1)"
      by (simp add: d_def flip: pow2_add)
    also have "\<dots> \<le> pow2 (d + 1) * of_int b"
      using den pow2_pos [of "d + 1"] by (simp only: mult_le_cancel_left_pos)
    finally have "of_int a < pow2 (d + 1) * of_int b"
      using num by simp
    then have "q < pow2 (d + 1)"
      using b by (simp add: q pos_divide_less_eq)
    with True show ?thesis by (simp add: floor_log2_def ab d_def)
  qed
qed

lemma round_half_even_nearest: "\<bar>rat_of_int (round_half_even x) - x\<bar> \<le> 1/2"
proof -
  have "rat_of_int \<lfloor>x\<rfloor> \<le> x" "x < rat_of_int \<lfloor>x\<rfloor> + 1" by linarith+
  then show ?thesis
    by (auto simp: round_half_even_def Let_def abs_le_iff)
qed

lemma round_half_even_of_int: "round_half_even (of_int m) = m"
  by (simp add: round_half_even_def)

lemma round_double_not_NaN: "round_double q \<noteq> NaN"
  by (simp add: round_double_def round_binade_def)

text \<open>A number below \<open>2^1023\<close> rounds to a finite double.\<close>

lemma round_double_small:
  assumes "\<bar>q\<bar> < pow2 1023"
  shows "\<exists>v. round_double q = Finite v"
proof (cases "q = 0")
  case True
  then show ?thesis by (simp add: round_double_def)
next
  case False
  then have "pow2 (floor_log2 \<bar>q\<bar>) \<le> \<bar>q\<bar>" by (simp add: floor_log2_le)
  with assms have "pow2 (floor_log2 \<bar>q\<bar>) < pow2 1023" by simp
  then have "floor_log2 \<bar>q\<bar> < 1023" by (simp only: pow2_less_iff)
  with False show ?thesis by (simp add: round_double_def round_binade_def)
qed

text \<open>
  A number with at most 53 significant bits, within the range of doubles, is a double:
  rounding leaves it as it is.
\<close>

lemma round_double_exact:
  assumes q: "q = of_int m * pow2 k" and m: "\<bar>m\<bar> < 2 ^ 53" and k: "- 1074 \<le> k"
    and small: "\<bar>q\<bar> < pow2 1023"
  shows "round_double q = Finite q"
proof (cases "q = 0")
  case True
  then show ?thesis by (simp add: round_double_def)
next
  case False
  define e where "e = floor_log2 \<bar>q\<bar>"
  define k' where "k' = max (e - 52) (- 1074)"
  from False have low: "pow2 e \<le> \<bar>q\<bar>" by (simp add: floor_log2_le e_def)
  with small have "pow2 e < pow2 1023" by simp
  then have e: "e < 1023" by (simp only: pow2_less_iff)
  have "\<bar>q\<bar> = of_int \<bar>m\<bar> * pow2 k"
    using pow2_pos [of k] by (simp add: q abs_mult)
  also have "\<dots> < of_int (2 ^ 53) * pow2 k"
    using m pow2_pos [of k] by (simp only: mult_less_cancel_right_pos of_int_less_iff)
  also have "\<dots> = pow2 (53 + k)"
    unfolding pow2_add by (simp add: pow2_def)
  finally have "pow2 e < pow2 (53 + k)" using low by simp
  then have "e < 53 + k" by (simp only: pow2_less_iff)
  with k have kk: "k' \<le> k" by (simp add: k'_def)
  then obtain n where n: "k = k' + int n"
    by (metis zle_iff_zadd)
  have "q / pow2 k' = of_int m * pow2 (int n)"
    using pow2_pos [of k'] by (simp add: q n pow2_add)
  also have "\<dots> = of_int (m * 2 ^ n)"
    by (simp add: pow2_nat)
  finally have "round_half_even (q / pow2 k') = m * 2 ^ n"
    by (simp only: round_half_even_of_int)
  then have "round_to q k' = q"
    by (simp add: round_to_def q n pow2_add pow2_nat)
  with False e show ?thesis
    by (simp add: round_double_def round_binade_def e_def [symmetric] k'_def [symmetric])
qed

lemma round_double_of_int:
  assumes "\<bar>n\<bar> < 2 ^ 53"
  shows "round_double (of_int n) = Finite (of_int n)"
proof (rule round_double_exact [where m = n and k = 0])
  show "rat_of_int n = of_int n * pow2 0" by (simp add: pow2_def)
  show "\<bar>n\<bar> < 2 ^ 53" by fact
  show "- 1074 \<le> (0::int)" by simp
  have "\<bar>rat_of_int n\<bar> = of_int \<bar>n\<bar>" by simp
  also have "\<dots> < of_int (2 ^ 53)" using assms by (simp only: of_int_less_iff)
  also have "\<dots> < pow2 1023" by (simp add: pow2_def)
  finally show "\<bar>rat_of_int n\<bar> < pow2 1023" .
qed

lemma int_to_float_exact:
  assumes "\<bar>n\<bar> < 2 ^ 53"
  shows "int_to_float n = Inr (of_int n)"
  using assms by (simp add: int_to_float_def round_double_of_int)

text \<open>The product of a float with the side of an image is the rounded exact product.\<close>

lemma py_mul_float:
  assumes "\<bar>n\<bar> < 2 ^ 53"
  shows "py_mul (JFloat (Finite x)) n = Inr (JFloat (round_double (x * of_int n)))"
  using assms by (simp add: float_mul_int_def int_to_float_exact)

section \<open>Properties of the overlay rectangle\<close>

lemma trunc_rat_of_int: "trunc_rat (of_int n) = n"
  by (simp add: trunc_rat_def)

lemma trunc_rat_towards_zero:
  "\<bar>rat_of_int (trunc_rat q)\<bar> \<le> \<bar>q\<bar> \<and> \<bar>q - rat_of_int (trunc_rat q)\<bar> < 1"
proof (cases "0 \<le> q")
  case True
  then have "0 \<le> \<lfloor>q\<rfloor>" by simp
  moreover have "rat_of_int \<lfloor>q\<rfloor> \<le> q" "q < rat_of_int \<lfloor>q\<rfloor> + 1" by linarith+
  ultimately show ?thesis using True by (simp add: trunc_rat_def)
next
  case False
  then have "\<lceil>q\<rceil> \<le> 0" by (simp add: ceiling_le_zero)
  moreover have "q \<le> rat_of_int \<lceil>q\<rceil>" "rat_of_int \<lceil>q\<rceil> < q + 1" by linarith+
  ultimately show ?thesis using False by (simp add: trunc_rat_def)
qed

text \<open>\<open>int(v * n)\<close> when the product \<open>v * n\<close> is a finite number.\<close>

lemma scale_product:
  assumes "py_mul v n = Inr p" and "finite_number p = Some q"
  shows "scale w v n = Inr (trunc_rat q)"
proof (cases p)
  case (JInt i)
  with assms(2) have "q = of_int i" by simp
  with JInt assms(1) show ?thesis by (simp add: scale_def trunc_rat_of_int)
next
  case (JFloat f)
  with assms(2) have "f = Finite q" by (cases f) simp_all
  with JFloat assms(1) show ?thesis by (simp add: scale_def)
qed (use assms(2) in simp_all)

lemma bbox_pixels_products:
  assumes "py_mul a W = Inr pa" and "finite_number pa = Some p0"
    and "py_mul b H = Inr pb" and "finite_number pb = Some q0"
    and "py_mul c W = Inr pc" and "finite_number pc = Some p1"
    and "py_mul d H = Inr pd" and "finite_number pd = Some q1"
  shows "bbox_pixels w (a, b, c, d) (W, H) =
           Inr (trunc_rat p0, trunc_rat q0, trunc_rat p1, trunc_rat q1)"
  using assms by (simp add: scale_product)

text \<open>On finite numbers the arithmetic has one exception: the float product overflows.\<close>

lemma scale_finite_cases:
  assumes "finite_number v = Some q"
  shows "(\<exists>i. scale w v n = Inr i) \<or> scale w v n = Inl (Exc ''OverflowError'')"
proof (cases v)
  case (JInt i)
  then show ?thesis by (simp add: scale_def)
next
  case (JFloat f)
  with assms have f: "f = Finite q" by (cases f) simp_all
  show ?thesis
  proof (cases "round_double (of_int n)")
    case (Finite n')
    show ?thesis
    proof (cases "round_double (q * n')")
      case NaN
      then show ?thesis by (simp add: round_double_not_NaN)
    qed (simp_all add: scale_def JFloat f float_mul_int_def int_to_float_def Finite)
  qed (simp_all add: scale_def JFloat f float_mul_int_def int_to_float_def)
qed (use assms in simp_all)

lemma bbox_pixels_finite_cases:
  assumes "finite_number a = Some x0" and "finite_number b = Some y0"
    and "finite_number c = Some x1" and "finite_number d = Some y1"
  shows "(\<exists>r. bbox_pixels w (a, b, c, d) (W, H) = Inr r)
       \<or> bbox_pixels w (a, b, c, d) (W, H) = Inl (Exc ''OverflowError'')"
  using scale_finite_cases [OF assms(1), of w W] scale_finite_cases [OF assms(3), of w W]
        scale_finite_cases [OF assms(2), of w H] scale_finite_cases [OF assms(4), of w H]
  by auto

text \<open>No overflow for moderate coordinates on an image of any real size.\<close>

lemma scale_moderate:
  assumes "moderate_number v" and "\<bar>n\<bar> < 2 ^ 53"
  shows "\<exists>i. scale w v n = Inr i"
proof (cases v)
  case (JInt i)
  then show ?thesis by (simp add: scale_def)
next
  case (JFloat f)
  with assms(1) obtain q where f: "f = Finite q" and q: "\<bar>q\<bar> \<le> 2 ^ 900"
    by (cases f) simp_all
  have "\<bar>q * of_int n\<bar> = \<bar>q\<bar> * of_int \<bar>n\<bar>"
    by (simp add: abs_mult)
  also have "\<dots> \<le> 2 ^ 900 * of_int \<bar>n\<bar>"
    using q by (intro mult_right_mono) simp_all
  also have "\<dots> < 2 ^ 900 * rat_of_int (2 ^ 53)"
    using assms(2) by (intro mult_strict_left_mono) (simp_all only: of_int_less_iff zero_less_power zero_less_numeral)
  also have "\<dots> = pow2 953"
    by (simp add: pow2_def)
  also have "\<dots> < pow2 1023"
    by (simp only: pow2_less_iff)
  finally obtain p where "round_double (q * of_int n) = Finite p"
    using round_double_small by blast
  then show ?thesis
    by (simp add: scale_def JFloat f py_mul_float [OF assms(2)] del: py_mul.simps)
qed (use assms(1) in simp_all)

lemma bbox_pixels_moderate:
  assumes "moderate_number a" and "moderate_number b"
    and "moderate_number c" and "moderate_number d"
    and "\<bar>W\<bar> < 2 ^ 53" and "\<bar>H\<bar> < 2 ^ 53"
  shows "\<exists>r. bbox_pixels w (a, b, c, d) (W, H) = Inr r"
  using scale_moderate [OF assms(1) assms(5), of w] scale_moderate [OF assms(3) assms(5), of w]
        scale_moderate [OF assms(2) assms(6), of w] scale_moderate [OF assms(4) assms(6), of w]
  by auto

text \<open>
  The specification writes the pixel rectangle with rounding. The module converts with
  \<open>int\<close>, which drops the fraction: the box (0.25, 0.25, 0.75, 0.75) on an image of
  5 by 5 pixels has its right edge at 0.75 * 5 = 3.75, which \<open>int\<close> turns into 3 and
  rounding into 4. All the numbers involved are exact as doubles.
\<close>

theorem bbox_pixels_round_counterexample:
  "bbox_pixels demo_world (float_box (1/4, 1/4, 3/4, 3/4)) (5, 5) = Inr (1, 1, 3, 3)
   \<and> spec_pixel_rect (1/4, 1/4, 3/4, 3/4) (5, 5) = (1, 1, 4, 4)
   \<and> bbox_pixels demo_world (float_box (1/4, 1/4, 3/4, 3/4)) (5, 5)
       \<noteq> Inr (spec_pixel_rect (1/4, 1/4, 3/4, 3/4) (5, 5))"
  by code_simp

text \<open>
  Claim C1, as amended. For every box and every image size \<open>(W, H)\<close> for which the
  four Python products \<open>x0*W\<close>, \<open>y0*H\<close>, \<open>x1*W\<close>, \<open>y1*H\<close> are finite numbers, the
  pixel rectangle is \<open>(int(x0*W), int(y0*H), int(x1*W), int(y1*H))\<close>. The product of
  an int coordinate is exact, the product of a float coordinate is the exact product
  rounded to the nearest double (for every side below \<open>2^53\<close>), and \<open>int\<close> truncates
  towards zero: it never moves away from zero and is off by less than one. The box
  (0.25, 0.25, 0.75, 0.75) on a 400 by 200 image maps to (100, 50, 300, 150), and the
  full-frame box (0, 0, 1, 1) maps to \<open>(0, 0, W, H)\<close>, written with ints for every
  size and written with floats for every side below \<open>2^53\<close>.
\<close>

theorem bbox_pixels_truncates:
  assumes "py_mul a W = Inr pa" and "finite_number pa = Some p0"
    and "py_mul b H = Inr pb" and "finite_number pb = Some q0"
    and "py_mul c W = Inr pc" and "finite_number pc = Some p1"
    and "py_mul d H = Inr pd" and "finite_number pd = Some q1"
  shows "bbox_pixels w (a, b, c, d) (W, H) =
           Inr (trunc_rat p0, trunc_rat q0, trunc_rat p1, trunc_rat q1)
       \<and> py_mul (JInt i) W = Inr (JInt (i * W))
       \<and> (\<bar>W\<bar> < 2 ^ 53 \<longrightarrow>
            py_mul (JFloat (Finite x)) W = Inr (JFloat (round_double (x * of_int W))))
       \<and> \<bar>rat_of_int (trunc_rat q)\<bar> \<le> \<bar>q\<bar> \<and> \<bar>q - rat_of_int (trunc_rat q)\<bar> < 1
       \<and> bbox_pixels w (float_box (1/4, 1/4, 3/4, 3/4)) (400, 200) = Inr (100, 50, 300, 150)
       \<and> bbox_pixels w (JInt 0, JInt 0, JInt 1, JInt 1) (W, H) = Inr (0, 0, W, H)
       \<and> (\<bar>W\<bar> < 2 ^ 53 \<and> \<bar>H\<bar> < 2 ^ 53 \<longrightarrow>
            bbox_pixels w (float_box (0, 0, 1, 1)) (W, H) = Inr (0, 0, W, H))"
proof -
  have general: "bbox_pixels w (a, b, c, d) (W, H) =
           Inr (trunc_rat p0, trunc_rat q0, trunc_rat p1, trunc_rat q1)"
    using assms by (rule bbox_pixels_products)
  have exact: "py_mul (JInt i) W = Inr (JInt (i * W))"
    by simp
  have rounded: "py_mul (JFloat (Finite x)) W = Inr (JFloat (round_double (x * of_int W)))"
    if "\<bar>W\<bar> < 2 ^ 53"
    using that by (rule py_mul_float)
  have quarter: "bbox_pixels w (float_box (1/4, 1/4, 3/4, 3/4)) (400, 200) = Inr (100, 50, 300, 150)"
    by code_simp
  have full_int: "bbox_pixels w (JInt 0, JInt 0, JInt 1, JInt 1) (W, H) = Inr (0, 0, W, H)"
    by (simp add: scale_def)
  have full_float: "bbox_pixels w (float_box (0, 0, 1, 1)) (W, H) = Inr (0, 0, W, H)"
    if "\<bar>W\<bar> < 2 ^ 53 \<and> \<bar>H\<bar> < 2 ^ 53"
  proof -
    have zero: "round_double 0 = Finite 0"
      by (simp add: round_double_def)
    have "scale w (JFloat (Finite 0)) n = Inr 0" "scale w (JFloat (Finite 1)) n = Inr n"
      if n: "\<bar>n\<bar> < 2 ^ 53" for n
      by (simp_all add: scale_def py_mul_float [OF n] zero round_double_of_int [OF n]
          trunc_rat_of_int trunc_rat_def del: py_mul.simps)
    with that show ?thesis by (simp add: float_box_def)
  qed
  from general exact rounded trunc_rat_towards_zero [of q] quarter full_int full_float
  show ?thesis by blast
qed

theorem bbox_pixels_truncates_witness:
  "bbox_pixels demo_world
     (json_float (3/10), json_float (6/10), json_float (7/10), json_float (7/10)) (10, 10)
     = Inr (3, 6, 7, 7)"
proof -
  have products:
    "py_mul (json_float (3/10)) 10 = Inr (JFloat (Finite 3))"
    "py_mul (json_float (6/10)) 10 = Inr (JFloat (Finite 6))"
    "py_mul (json_float (7/10)) 10 = Inr (JFloat (Finite 7))"
    by code_simp+
  have finite:
    "finite_number (JFloat (Finite 3)) = Some 3"
    "finite_number (JFloat (Finite 6)) = Some 6"
    "finite_number (JFloat (Finite 7)) = Some 7"
    by simp_all
  have ints: "trunc_rat 3 = 3" "trunc_rat 6 = 6" "trunc_rat 7 = 7"
    by (simp_all add: trunc_rat_def)
  from bbox_pixels_truncates
    [OF products(1) finite(1) products(2) finite(2) products(3) finite(3) products(3) finite(3),
     of demo_world]
  show ?thesis by (simp only: ints)
qed

section \<open>Properties of the page rasterizer\<close>

lemma render_from_path_opened:
  assumes "fitz_available w" and "fitz_open_path w path = Inr doc" and "doc \<noteq> []"
  shows "render_pdf_page_from_path w path i z =
           page_image w (doc ! nat (max 0 (min i (int (length doc) - 1)))) z"
proof -
  have "nat (max 0 (min i (int (length doc) - 1))) < length doc"
    using assms(3) by (cases doc) auto
  with assms(1,2) show ?thesis
    by (simp add: render_pdf_page_from_path_def load_page_def)
qed

lemma render_from_bytes_opened:
  assumes "fitz_available w" and "fitz_open_stream w raw = Inr doc" and "doc \<noteq> []"
  shows "render_pdf_page_from_bytes w raw i z =
           page_image w (doc ! nat (max 0 (min i (int (length doc) - 1)))) z"
proof -
  have "nat (max 0 (min i (int (length doc) - 1))) < length doc"
    using assms(3) by (cases doc) auto
  with assms(1,2) show ?thesis
    by (simp add: render_pdf_page_from_bytes_def load_page_def)
qed

lemma render_from_bytes_open_fails:
  assumes "fitz_available w" and "fitz_open_stream w raw = Inl e"
  shows "render_pdf_page_from_bytes w raw i z = Inl e"
  using assms by (simp add: render_pdf_page_from_bytes_def)

lemma render_from_path_open_fails:
  assumes "fitz_available w" and "fitz_open_path w path = Inl e"
  shows "render_pdf_page_from_path w path i z = Inl e"
  using assms by (simp add: render_pdf_page_from_path_def)

lemma demo_world_facts:
  "fitz_available demo_world"
  "fitz_open_path demo_world PDF_PATH = Inr demo_doc"
  "fitz_open_stream demo_world demo_pdf = Inr demo_doc"
  "demo_doc \<noteq> []"
  "length demo_doc = 10"
  "demo_doc ! 0 = 0"
  "demo_doc ! 9 = 9"
  by (simp_all add: demo_world_def demo_doc_def)

lemma demo_page_image:
  "page_image demo_world pg (Finite 2) =
     Inr \<lparr>img_mode = ''RGB'', img_size = (4, 2), img_data = Samples (replicate 24 pg), img_ops = []\<rparr>"
  by (simp add: page_image_def demo_world_def demo_get_pixmap_def image_frombytes_def)

lemma demo_page_image_nonpositive:
  "page_image demo_world pg (Finite (- 1)) =
     Inr \<lparr>img_mode = ''RGB'', img_size = (2, 1), img_data = Samples (replicate 6 pg), img_ops = []\<rparr>"
  "page_image demo_world pg (Finite 0) =
     Inr \<lparr>img_mode = ''RGB'', img_size = (0, 0), img_data = Samples [], img_ops = []\<rparr>"
  by (simp_all add: page_image_def demo_world_def demo_get_pixmap_def image_frombytes_def)

lemma demo_render:
  "render_pdf_page_from_path demo_world PDF_PATH 3 (Finite 2) = Inr (demo_image 3)"
  "render_pdf_page_from_bytes demo_world demo_pdf 3 (Finite 2) = Inr (demo_image 3)"
  by (simp_all add: render_from_path_opened [OF demo_world_facts(1,2,4)]
      render_from_bytes_opened [OF demo_world_facts(1,3,4)] demo_page_image demo_image_def
      demo_doc_def)

lemma render_from_path_no_pages:
  assumes "fitz_available w" and "fitz_open_path w path = Inr []"
  shows "render_pdf_page_from_path w path i z = Inl (Exc ''ValueError'')"
  using assms by (simp add: render_pdf_page_from_path_def load_page_def)

lemma render_from_bytes_no_pages:
  assumes "fitz_available w" and "fitz_open_stream w raw = Inr []"
  shows "render_pdf_page_from_bytes w raw i z = Inl (Exc ''ValueError'')"
  using assms by (simp add: render_pdf_page_from_bytes_def load_page_def)

text \<open>
  A document can open and have no pages. Then \<open>max(0, min(page_index, -1))\<close> is 0,
  \<open>load_page(0)\<close> finds no page, and the render functions raise for every index.
\<close>

theorem render_no_pages_counterexample:
  "fitz_open_path no_pages_world PDF_PATH = Inr []
   \<and> render_pdf_page_from_path no_pages_world PDF_PATH (- 5) (Finite 2) = Inl (Exc ''ValueError'')
   \<and> render_pdf_page_from_path no_pages_world PDF_PATH 0 (Finite 2) = Inl (Exc ''ValueError'')
   \<and> fitz_open_stream no_pages_world demo_pdf = Inr []
   \<and> render_pdf_page_from_bytes no_pages_world demo_pdf 10000 (Finite 2) = Inl (Exc ''ValueError'')"
proof -
  have on: "fitz_available no_pages_world"
    and path: "fitz_open_path no_pages_world PDF_PATH = Inr []"
    and bytes: "fitz_open_stream no_pages_world demo_pdf = Inr []"
    by (simp_all add: no_pages_world_def demo_world_def)
  from on path bytes show ?thesis
    by (simp add: render_from_path_no_pages render_from_bytes_no_pages)
qed

text \<open>
  Claim C3, as amended. With the backend present and a document of at least one page
  opened, both render functions clamp the requested index into the document and raise
  nothing for the index: a negative index gives the first page, an index in range that
  page, an index past the end the last page, so that -5 gives the first page and 10000
  on a ten-page document the tenth; the result is what rendering that page gives, and it
  is an image whenever the backend renders the pages of the document. For a document
  without pages every index raises ValueError.
\<close>

theorem render_clamps_page_index:
  assumes "fitz_available w"
  shows "(fitz_open_path w path = Inr doc \<longrightarrow>
            (doc \<noteq> [] \<longrightarrow>
                (i < 0 \<longrightarrow> render_pdf_page_from_path w path i z = page_image w (doc ! 0) z)
              \<and> (0 \<le> i \<and> i < int (length doc) \<longrightarrow>
                    render_pdf_page_from_path w path i z = page_image w (doc ! nat i) z)
              \<and> (int (length doc) \<le> i \<longrightarrow>
                    render_pdf_page_from_path w path i z = page_image w (doc ! (length doc - 1)) z)
              \<and> ((\<forall>pg \<in> set doc. \<exists>img. page_image w pg z = Inr img) \<longrightarrow>
                    (\<exists>img. render_pdf_page_from_path w path i z = Inr img))
              \<and> render_pdf_page_from_path w path (- 5) z = page_image w (doc ! 0) z
              \<and> (length doc = 10 \<longrightarrow>
                    render_pdf_page_from_path w path 10000 z = page_image w (doc ! 9) z))
          \<and> (doc = [] \<longrightarrow> render_pdf_page_from_path w path i z = Inl (Exc ''ValueError'')))
       \<and> (fitz_open_stream w raw = Inr doc \<longrightarrow>
            (doc \<noteq> [] \<longrightarrow>
                (i < 0 \<longrightarrow> render_pdf_page_from_bytes w raw i z = page_image w (doc ! 0) z)
              \<and> (0 \<le> i \<and> i < int (length doc) \<longrightarrow>
                    render_pdf_page_from_bytes w raw i z = page_image w (doc ! nat i) z)
              \<and> (int (length doc) \<le> i \<longrightarrow>
                    render_pdf_page_from_bytes w raw i z = page_image w (doc ! (length doc - 1)) z)
              \<and> ((\<forall>pg \<in> set doc. \<exists>img. page_image w pg z = Inr img) \<longrightarrow>
                    (\<exists>img. render_pdf_page_from_bytes w raw i z = Inr img))
              \<and> render_pdf_page_from_bytes w raw (- 5) z = page_image w (doc ! 0) z
              \<and> (length doc = 10 \<longrightarrow>
                    render_pdf_page_from_bytes w raw 10000 z = page_image w (doc ! 9) z))
          \<and> (doc = [] \<longrightarrow> render_pdf_page_from_bytes w raw i z = Inl (Exc ''ValueError'')))"
proof -
  have in_range: "nat (max 0 (min k (int (length doc) - 1))) < length doc" if "doc \<noteq> []" for k
    using that by (cases doc) auto
  have low: "nat (max 0 (min k (int (length doc) - 1))) = 0" if "k < 0" for k
    using that by simp
  have keep: "nat (max 0 (min k (int (length doc) - 1))) = nat k"
    if "0 \<le> k \<and> k < int (length doc)" for k
    using that by simp
  have high: "nat (max 0 (min k (int (length doc) - 1))) = length doc - 1"
    if "int (length doc) \<le> k" for k
    using that by (simp add: nat_diff_distrib')
  show ?thesis
  proof (intro conjI impI)
    assume o: "fitz_open_path w path = Inr doc" and ne: "doc \<noteq> []"
    note r = render_from_path_opened [OF assms o ne]
    show "render_pdf_page_from_path w path i z = page_image w (doc ! 0) z" if "i < 0"
      using r [of i] low [OF that] by simp
    show "render_pdf_page_from_path w path i z = page_image w (doc ! nat i) z"
      if "0 \<le> i \<and> i < int (length doc)"
      using r [of i] keep [OF that] by simp
    show "render_pdf_page_from_path w path i z = page_image w (doc ! (length doc - 1)) z"
      if "int (length doc) \<le> i"
      using r [of i] high [OF that] by simp
    show "\<exists>img. render_pdf_page_from_path w path i z = Inr img"
      if "\<forall>pg \<in> set doc. \<exists>img. page_image w pg z = Inr img"
    proof -
      let ?j = "nat (max 0 (min i (int (length doc) - 1)))"
      from in_range [OF ne] have "doc ! ?j \<in> set doc" by simp
      with that obtain img where "page_image w (doc ! ?j) z = Inr img" by blast
      with r [of i] show ?thesis by simp
    qed
    show "render_pdf_page_from_path w path (- 5) z = page_image w (doc ! 0) z"
      using r [of "- 5"] low [of "- 5"] by simp
    show "render_pdf_page_from_path w path 10000 z = page_image w (doc ! 9) z"
      if "length doc = 10"
      using r [of 10000] that by simp
  next
    assume "fitz_open_path w path = Inr doc" and "doc = []"
    with assms show "render_pdf_page_from_path w path i z = Inl (Exc ''ValueError'')"
      by (simp add: render_from_path_no_pages)
  next
    assume o: "fitz_open_stream w raw = Inr doc" and ne: "doc \<noteq> []"
    note r = render_from_bytes_opened [OF assms o ne]
    show "render_pdf_page_from_bytes w raw i z = page_image w (doc ! 0) z" if "i < 0"
      using r [of i] low [OF that] by simp
    show "render_pdf_page_from_bytes w raw i z = page_image w (doc ! nat i) z"
      if "0 \<le> i \<and> i < int (length doc)"
      using r [of i] keep [OF that] by simp
    show "render_pdf_page_from_bytes w raw i z = page_image w (doc ! (length doc - 1)) z"
      if "int (length doc) \<le> i"
      using r [of i] high [OF that] by simp
    show "\<exists>img. render_pdf_page_from_bytes w raw i z = Inr img"
      if "\<forall>pg \<in> set doc. \<exists>img. page_image w pg z = Inr img"
    proof -
      let ?j = "nat (max 0 (min i (int (length doc) - 1)))"
      from in_range [OF ne] have "doc ! ?j \<in> set doc" by simp
      with that obtain img where "page_image w (doc ! ?j) z = Inr img" by blast
      with r [of i] show ?thesis by simp
    qed
    show "render_pdf_page_from_bytes w raw (- 5) z = page_image w (doc ! 0) z"
      using r [of "- 5"] low [of "- 5"] by simp
    show "render_pdf_page_from_bytes w raw 10000 z = page_image w (doc ! 9) z"
      if "length doc = 10"
      using r [of 10000] that by simp
  next
    assume "fitz_open_stream w raw = Inr doc" and "doc = []"
    with assms show "render_pdf_page_from_bytes w raw i z = Inl (Exc ''ValueError'')"
      by (simp add: render_from_bytes_no_pages)
  qed
qed

theorem render_clamps_page_index_witness:
  "render_pdf_page_from_path demo_world PDF_PATH (- 5) (Finite 2) = page_image demo_world 0 (Finite 2)
   \<and> render_pdf_page_from_path demo_world PDF_PATH 10000 (Finite 2) = page_image demo_world 9 (Finite 2)
   \<and> render_pdf_page_from_path demo_world PDF_PATH 11 (Finite 2) = page_image demo_world 9 (Finite 2)
   \<and> render_pdf_page_from_path demo_world PDF_PATH 4 (Finite 2) = page_image demo_world 4 (Finite 2)
   \<and> render_pdf_page_from_bytes demo_world demo_pdf (- 1) (Finite 2) = page_image demo_world 0 (Finite 2)
   \<and> render_pdf_page_from_bytes demo_world demo_pdf 10 (Finite 2) = page_image demo_world 9 (Finite 2)
   \<and> page_image demo_world 9 (Finite 2) =
       Inr \<lparr>img_mode = ''RGB'', img_size = (4, 2), img_data = Samples (replicate 24 9), img_ops = []\<rparr>"
proof -
  note t = render_clamps_page_index [OF demo_world_facts(1), where doc = demo_doc
      and path = PDF_PATH and raw = demo_pdf and z = "Finite 2"]
  have pages: "demo_doc ! (length demo_doc - 1) = 9" "demo_doc ! 4 = 4"
    by (simp_all add: demo_doc_def)
  from t [of 10000] t [of 11] t [of 4] t [of "- 1"] t [of 10] show ?thesis
    by (simp add: demo_world_facts demo_page_image pages)
qed

text \<open>
  The render functions never look at \<open>zoom\<close>: they hand it to \<open>fitz.Matrix\<close>. In
  the demo world the backend renders a mirrored page for zoom -1 and an empty pixmap for
  zoom 0, and the render functions return these images; no exception named InvalidZoom
  exists in the module.
\<close>

theorem render_invalid_zoom_counterexample:
  "render_pdf_page_from_path demo_world PDF_PATH 0 (Finite (- 1)) =
     Inr \<lparr>img_mode = ''RGB'', img_size = (2, 1), img_data = Samples (replicate 6 0), img_ops = []\<rparr>
   \<and> render_pdf_page_from_path demo_world PDF_PATH 0 (Finite (- 1)) \<noteq> Inl (Exc ''InvalidZoom'')
   \<and> render_pdf_page_from_bytes demo_world demo_pdf 0 (Finite 0) =
     Inr \<lparr>img_mode = ''RGB'', img_size = (0, 0), img_data = Samples [], img_ops = []\<rparr>
   \<and> render_pdf_page_from_bytes demo_world demo_pdf 0 (Finite 0) \<noteq> Inl (Exc ''InvalidZoom'')"
  by (simp add: render_from_path_opened [OF demo_world_facts(1,2,4)]
      render_from_bytes_opened [OF demo_world_facts(1,3,4)] demo_world_facts
      demo_page_image_nonpositive)

lemma clamped_page_error:
  assumes "(case load_page doc (nat (max 0 (min i (int (length doc) - 1)))) of
              Inl e \<Rightarrow> Inl e | Inr pg \<Rightarrow> page_image w pg z) = Inl e"
  shows "backend_raised w doc z e"
proof (cases "doc = []")
  case True
  with assms show ?thesis by (simp add: load_page_def backend_raised_def)
next
  case False
  let ?j = "nat (max 0 (min i (int (length doc) - 1)))"
  have j: "?j < length doc"
    using False by (cases doc) auto
  then have mem: "doc ! ?j \<in> set doc" by simp
  from j assms have "page_image w (doc ! ?j) z = Inl e"
    by (simp add: load_page_def)
  with mem show ?thesis
    unfolding backend_raised_def by blast
qed

text \<open>
  Claim C7, as amended. The page rasterizer does not check \<open>zoom\<close> (default 2.0): for
  every zoom, positive or not, an index in range is rendered as the backend renders that
  page with \<open>Matrix(zoom, zoom)\<close>. Every exception the rasterizer raises is the one
  \<open>fitz.open\<close> raised, or one raised while a page of the opened document was rendered
  (\<open>load_page\<close>, \<open>get_pixmap\<close>, \<open>Image.frombytes\<close>), or the RuntimeError for a
  missing backend.
\<close>

theorem render_raises_only_backend_errors:
  "(render_pdf_page_from_path w path i z = Inl e \<longrightarrow>
      fitz_open_path w path = Inl e
    \<or> (\<exists>doc. fitz_open_path w path = Inr doc \<and> backend_raised w doc z e)
    \<or> (\<not> fitz_available w \<and> e = Exc ''RuntimeError''))
   \<and> (render_pdf_page_from_bytes w raw i z = Inl e \<longrightarrow>
      fitz_open_stream w raw = Inl e
    \<or> (\<exists>doc. fitz_open_stream w raw = Inr doc \<and> backend_raised w doc z e)
    \<or> (\<not> fitz_available w \<and> e = Exc ''RuntimeError''))
   \<and> (fitz_available w \<and> fitz_open_path w path = Inr doc \<and> 0 \<le> i \<and> i < int (length doc) \<longrightarrow>
        render_pdf_page_from_path w path i z = page_image w (doc ! nat i) z)
   \<and> (fitz_available w \<and> fitz_open_stream w raw = Inr doc \<and> 0 \<le> i \<and> i < int (length doc) \<longrightarrow>
        render_pdf_page_from_bytes w raw i z = page_image w (doc ! nat i) z)"
proof (intro conjI impI)
  assume fails: "render_pdf_page_from_path w path i z = Inl e"
  show "fitz_open_path w path = Inl e
    \<or> (\<exists>doc. fitz_open_path w path = Inr doc \<and> backend_raised w doc z e)
    \<or> (\<not> fitz_available w \<and> e = Exc ''RuntimeError'')"
  proof (cases "fitz_available w")
    case False
    with fails show ?thesis by (simp add: render_pdf_page_from_path_def)
  next
    case True
    show ?thesis
    proof (cases "fitz_open_path w path")
      case (Inl e')
      with True fails show ?thesis by (simp add: render_pdf_page_from_path_def)
    next
      case (Inr doc)
      with True fails have "backend_raised w doc z e"
        by (intro clamped_page_error [where i = i]) (simp add: render_pdf_page_from_path_def)
      with Inr show ?thesis by simp
    qed
  qed
next
  assume fails: "render_pdf_page_from_bytes w raw i z = Inl e"
  show "fitz_open_stream w raw = Inl e
    \<or> (\<exists>doc. fitz_open_stream w raw = Inr doc \<and> backend_raised w doc z e)
    \<or> (\<not> fitz_available w \<and> e = Exc ''RuntimeError'')"
  proof (cases "fitz_available w")
    case False
    with fails show ?thesis by (simp add: render_pdf_page_from_bytes_def)
  next
    case True
    show ?thesis
    proof (cases "fitz_open_stream w raw")
      case (Inl e')
      with True fails show ?thesis by (simp add: render_pdf_page_from_bytes_def)
    next
      case (Inr doc)
      with True fails have "backend_raised w doc z e"
        by (intro clamped_page_error [where i = i]) (simp add: render_pdf_page_from_bytes_def)
      with Inr show ?thesis by simp
    qed
  qed
next
  assume a: "fitz_available w \<and> fitz_open_path w path = Inr doc \<and> 0 \<le> i \<and> i < int (length doc)"
  then have "doc \<noteq> []" by auto
  with a show "render_pdf_page_from_path w path i z = page_image w (doc ! nat i) z"
    by (simp add: render_from_path_opened)
next
  assume a: "fitz_available w \<and> fitz_open_stream w raw = Inr doc \<and> 0 \<le> i \<and> i < int (length doc)"
  then have "doc \<noteq> []" by auto
  with a show "render_pdf_page_from_bytes w raw i z = page_image w (doc ! nat i) z"
    by (simp add: render_from_bytes_opened)
qed

theorem render_raises_only_backend_errors_witness:
  "render_pdf_page_from_path demo_world PDF_PATH 3 NaN = Inl (Exc ''ValueError'')
   \<and> backend_raised demo_world demo_doc NaN (Exc ''ValueError'')
   \<and> render_pdf_page_from_path demo_world PDF_PATH 3 (Finite (- 1)) =
       page_image demo_world (demo_doc ! 3) (Finite (- 1))"
proof -
  have "page_image demo_world pg NaN = Inl (Exc ''ValueError'')" for pg
    by (simp add: page_image_def demo_world_def demo_get_pixmap_def)
  then have fails: "render_pdf_page_from_path demo_world PDF_PATH 3 NaN = Inl (Exc ''ValueError'')"
    by (simp add: render_from_path_opened [OF demo_world_facts(1,2,4)])
  note t = render_raises_only_backend_errors
    [of demo_world PDF_PATH 3 NaN "Exc ''ValueError''" demo_pdf demo_doc]
  note u = render_raises_only_backend_errors
    [of demo_world PDF_PATH 3 "Finite (- 1)" "Exc ''ValueError''" demo_pdf demo_doc]
  from t fails have "backend_raised demo_world demo_doc NaN (Exc ''ValueError'')"
    by (simp add: demo_world_facts)
  moreover from u have "render_pdf_page_from_path demo_world PDF_PATH 3 (Finite (- 1)) =
       page_image demo_world (demo_doc ! 3) (Finite (- 1))"
    by (simp add: demo_world_facts)
  ultimately show ?thesis using fails by simp
qed

section \<open>Properties of the render cache\<close>

lemma cache_data_hit:
  assumes "cache_data body c k = (Inr img, c')"
  shows "cache_data body' c' k = (Inr img, c')"
proof (cases "cache_entries c k")
  case (Some stored)
  with assms have "stored = img" and "c' = c"
    by (simp_all add: cache_data_def)
  with Some show ?thesis by (simp add: cache_data_def)
next
  case None
  with assms obtain "body k = Inr img"
    and "c' = c\<lparr>cache_entries := (cache_entries c)(k \<mapsto> img), render_calls := Suc (render_calls c)\<rparr>"
    by (auto simp: cache_data_def split: sum.splits)
  then show ?thesis by (simp add: cache_data_def)
qed

lemma cache_data_failure:
  assumes "body k = Inl e" and "cache_entries c k = None"
  shows "cache_data body c k = (Inl e, c\<lparr>render_calls := Suc (render_calls c)\<rparr>)"
  using assms by (simp add: cache_data_def)

text \<open>
  Claim C4. When a cached render call has returned an image, the next call with the same
  arguments returns the same image and leaves the cache as it is, the count of body runs
  included: the rasterizer is not invoked again. This holds whatever the outside world
  has become in between, for the path variant and for the bytes variant.
\<close>

theorem cached_render_hit:
  "(render_pdf_page_from_path_cached w pc path i z = (Inr img, pc') \<longrightarrow>
      render_pdf_page_from_path_cached w' pc' path i z = (Inr img, pc')
      \<and> render_calls (snd (render_pdf_page_from_path_cached w' pc' path i z)) = render_calls pc')
   \<and> (render_pdf_page_from_bytes_cached w bc raw i z = (Inr img, bc') \<longrightarrow>
      render_pdf_page_from_bytes_cached w' bc' raw i z = (Inr img, bc')
      \<and> render_calls (snd (render_pdf_page_from_bytes_cached w' bc' raw i z)) = render_calls bc')"
proof (intro conjI impI)
  assume first: "render_pdf_page_from_path_cached w pc path i z = (Inr img, pc')"
  then show again: "render_pdf_page_from_path_cached w' pc' path i z = (Inr img, pc')"
    unfolding render_pdf_page_from_path_cached_def by (rule cache_data_hit)
  then show "render_calls (snd (render_pdf_page_from_path_cached w' pc' path i z)) = render_calls pc'"
    by simp
next
  assume first: "render_pdf_page_from_bytes_cached w bc raw i z = (Inr img, bc')"
  then show again: "render_pdf_page_from_bytes_cached w' bc' raw i z = (Inr img, bc')"
    unfolding render_pdf_page_from_bytes_cached_def by (rule cache_data_hit)
  then show "render_calls (snd (render_pdf_page_from_bytes_cached w' bc' raw i z)) = render_calls bc'"
    by simp
qed

theorem cached_render_hit_witness:
  "render_pdf_page_from_path_cached demo_world empty_cache PDF_PATH 3 (Finite 2) =
     (Inr (demo_image 3),
      \<lparr>cache_entries = [(PDF_PATH, 3, Finite 2) \<mapsto> demo_image 3], render_calls = 1\<rparr>)
   \<and> render_pdf_page_from_path_cached (demo_world\<lparr>fitz_available := False\<rparr>)
       \<lparr>cache_entries = [(PDF_PATH, 3, Finite 2) \<mapsto> demo_image 3], render_calls = 1\<rparr>
       PDF_PATH 3 (Finite 2) =
     (Inr (demo_image 3),
      \<lparr>cache_entries = [(PDF_PATH, 3, Finite 2) \<mapsto> demo_image 3], render_calls = 1\<rparr>)
   \<and> render_pdf_page_from_bytes_cached demo_world empty_cache demo_pdf 3 (Finite 2) =
     (Inr (demo_image 3),
      \<lparr>cache_entries = [(demo_pdf, 3, Finite 2) \<mapsto> demo_image 3], render_calls = 1\<rparr>)
   \<and> render_pdf_page_from_bytes_cached (demo_world\<lparr>fitz_available := False\<rparr>)
       \<lparr>cache_entries = [(demo_pdf, 3, Finite 2) \<mapsto> demo_image 3], render_calls = 1\<rparr>
       demo_pdf 3 (Finite 2) =
     (Inr (demo_image 3),
      \<lparr>cache_entries = [(demo_pdf, 3, Finite 2) \<mapsto> demo_image 3], render_calls = 1\<rparr>)"
proof -
  have p1: "render_pdf_page_from_path_cached demo_world empty_cache PDF_PATH 3 (Finite 2) =
     (Inr (demo_image 3),
      \<lparr>cache_entries = [(PDF_PATH, 3, Finite 2) \<mapsto> demo_image 3], render_calls = 1\<rparr>)"
    by (simp add: render_pdf_page_from_path_cached_def cache_data_def empty_cache_def demo_render)
  have b1: "render_pdf_page_from_bytes_cached demo_world empty_cache demo_pdf 3 (Finite 2) =
     (Inr (demo_image 3),
      \<lparr>cache_entries = [(demo_pdf, 3, Finite 2) \<mapsto> demo_image 3], render_calls = 1\<rparr>)"
    by (simp add: render_pdf_page_from_bytes_cached_def cache_data_def empty_cache_def demo_render)
  note hit = cached_render_hit [where w' = "demo_world\<lparr>fitz_available := False\<rparr>"]
  from hit [THEN conjunct1, rule_format, OF p1] hit [THEN conjunct2, rule_format, OF b1] p1 b1
  show ?thesis by blast
qed

text \<open>
  Claim C5. When the render of a byte buffer fails (the buffer is not a document, say)
  and the cache has no entry for the arguments, the cached call raises the same exception
  and stores nothing; the same call issued again raises again, and the body has run both
  times.
\<close>

theorem failed_render_not_cached:
  assumes "render_pdf_page_from_bytes w raw i z = Inl e"
    and "cache_entries c (raw, i, z) = None"
  shows "\<exists>c1 c2.
           render_pdf_page_from_bytes_cached w c raw i z = (Inl e, c1)
         \<and> cache_entries c1 = cache_entries c
         \<and> render_calls c1 = render_calls c + 1
         \<and> render_pdf_page_from_bytes_cached w c1 raw i z = (Inl e, c2)
         \<and> cache_entries c2 = cache_entries c
         \<and> render_calls c2 = render_calls c + 2"
proof -
  let ?body = "\<lambda>(r, i, z). render_pdf_page_from_bytes w r i z"
  define c1 where "c1 = c\<lparr>render_calls := Suc (render_calls c)\<rparr>"
  define c2 where "c2 = c1\<lparr>render_calls := Suc (render_calls c1)\<rparr>"
  have fails: "?body (raw, i, z) = Inl e"
    using assms(1) by simp
  have first: "cache_data ?body c (raw, i, z) = (Inl e, c1)"
    unfolding c1_def using fails assms(2) by (rule cache_data_failure)
  have still: "cache_entries c1 (raw, i, z) = None"
    using assms(2) by (simp add: c1_def)
  have second: "cache_data ?body c1 (raw, i, z) = (Inl e, c2)"
    unfolding c2_def using fails still by (rule cache_data_failure)
  have "cache_entries c1 = cache_entries c" "render_calls c1 = render_calls c + 1"
       "cache_entries c2 = cache_entries c" "render_calls c2 = render_calls c + 2"
    by (simp_all add: c1_def c2_def)
  with first second show ?thesis
    unfolding render_pdf_page_from_bytes_cached_def by blast
qed

theorem failed_render_not_cached_witness:
  "\<exists>c1 c2.
     render_pdf_page_from_bytes_cached demo_world empty_cache [0, 1] 0 (Finite 2)
       = (Inl (Exc ''FileDataError''), c1)
   \<and> cache_entries c1 = Map.empty
   \<and> render_calls c1 = 1
   \<and> render_pdf_page_from_bytes_cached demo_world c1 [0, 1] 0 (Finite 2)
       = (Inl (Exc ''FileDataError''), c2)
   \<and> cache_entries c2 = Map.empty
   \<and> render_calls c2 = 2"
proof -
  have "fitz_open_stream demo_world [0, 1] = Inl (Exc ''FileDataError'')"
    by (simp add: demo_world_def demo_pdf_def)
  with demo_world_facts(1)
  have fails: "render_pdf_page_from_bytes demo_world [0, 1] 0 (Finite 2) = Inl (Exc ''FileDataError'')"
    by (rule render_from_bytes_open_fails)
  have none: "cache_entries (empty_cache :: bytes_key cache) ([0, 1], 0, Finite 2) = None"
    by (simp add: empty_cache_def)
  from failed_render_not_cached [OF fails none] show ?thesis
    by (simp add: empty_cache_def numeral_2_eq_2)
qed

section \<open>Properties of the page display\<close>

lemma build_placeholder_image_ok:
  assumes "0 \<le> width" and "0 \<le> height"
  shows "\<exists>img. build_placeholder_image w width height = Inr img
             \<and> img_mode img = ''RGB'' \<and> img_size img = (width, height)"
  using assms
  by (simp add: build_placeholder_image_def image_new_def Let_def split: prod.splits)

lemma build_placeholder_image_negative:
  assumes "width < 0 \<or> height < 0"
  shows "build_placeholder_image w width height = Inl (Exc ''ValueError'')"
  using assms by (auto simp: build_placeholder_image_def image_new_def)

text \<open>
  Two inputs on which the claim fails as it is written. The page number is converted
  before the test of \<open>fitz\<close> and outside the \<open>try\<close>: with the backend missing, a
  record whose \<open>page_no\<close> is the string \<open>abc\<close> makes \<open>int\<close> raise ValueError, which
  leaves \<open>main\<close> with no placeholder shown. And \<open>Image.new\<close> refuses a negative
  width, so the placeholder function has an error condition.
\<close>

theorem placeholder_counterexample:
  "main_right_col (demo_world\<lparr>fitz_available := False\<rparr>) None empty_caches
     (JDict [(''page_no'', JStr ''abc'')]) = (Inl (Exc ''ValueError''), empty_caches)
   \<and> build_placeholder_image demo_world (- 1) 5 = Inl (Exc ''ValueError'')"
proof -
  have "demo_int_of_str ''abc'' = None"
    by (simp add: demo_int_of_str_def)
  then have "resolve_page_no (demo_world\<lparr>fitz_available := False\<rparr>) (JDict [(''page_no'', JStr ''abc'')])
      = Inl (Exc ''ValueError'')"
    by (simp add: resolve_page_no_def dict_get_def demo_world_def)
  then have "main_right_col (demo_world\<lparr>fitz_available := False\<rparr>) None empty_caches
     (JDict [(''page_no'', JStr ''abc'')]) = (Inl (Exc ''ValueError''), empty_caches)"
    by (simp add: main_right_col_def)
  moreover have "build_placeholder_image demo_world (- 1) 5 = Inl (Exc ''ValueError'')"
    by (simp add: build_placeholder_image_negative)
  ultimately show ?thesis by simp
qed

text \<open>
  Claim C8, as amended. When the backend is missing and the page number of the record
  converts to an int, the right column shows the warning and the placeholder of the
  default size 900 by 600, and no exception leaves \<open>main\<close>; the same placeholder is
  shown when a render call raises. When the conversion of the page number raises, that
  exception leaves \<open>main\<close>. For every non-negative width and height the placeholder
  is an RGB image of exactly that size; for a negative width or height the placeholder
  function raises ValueError.
\<close>

theorem backend_unavailable_shows_placeholder:
  assumes "\<not> fitz_available w"
  shows "(resolve_page_no w current_item = Inr page_no \<longrightarrow>
          (\<exists>ph. main_right_col w pdf_upload cs current_item
                  = (Inr [Warning_fitz_required, St_image ph], cs)
              \<and> show_rendered w current_item page_no (Inl e)
                  = Inr [Warning_render_failed page_no e, St_image ph]
              \<and> build_placeholder_image w 900 600 = Inr ph
              \<and> img_mode ph = ''RGB'' \<and> img_size ph = (900, 600)))
       \<and> (resolve_page_no w current_item = Inl e' \<longrightarrow>
            main_right_col w pdf_upload cs current_item = (Inl e', cs))
       \<and> (0 \<le> width \<and> 0 \<le> height \<longrightarrow>
            (\<exists>img. build_placeholder_image w width height = Inr img
                \<and> img_mode img = ''RGB'' \<and> img_size img = (width, height)))
       \<and> (width < 0 \<or> height < 0 \<longrightarrow>
            build_placeholder_image w width height = Inl (Exc ''ValueError''))"
proof (intro conjI impI)
  assume page: "resolve_page_no w current_item = Inr page_no"
  obtain ph where ph: "build_placeholder_image w 900 600 = Inr ph"
      "img_mode ph = ''RGB''" "img_size ph = (900, 600)"
    using build_placeholder_image_ok [of 900 600 w] by auto
  have "main_right_col w pdf_upload cs current_item = (Inr [Warning_fitz_required, St_image ph], cs)"
    using assms page ph(1) by (simp add: main_right_col_def show_placeholder_def)
  moreover have "show_rendered w current_item page_no (Inl e)
                  = Inr [Warning_render_failed page_no e, St_image ph]"
    using ph(1) by (simp add: show_rendered_def show_placeholder_def)
  ultimately show "\<exists>ph. main_right_col w pdf_upload cs current_item
                  = (Inr [Warning_fitz_required, St_image ph], cs)
              \<and> show_rendered w current_item page_no (Inl e)
                  = Inr [Warning_render_failed page_no e, St_image ph]
              \<and> build_placeholder_image w 900 600 = Inr ph
              \<and> img_mode ph = ''RGB'' \<and> img_size ph = (900, 600)"
    using ph by blast
next
  assume "resolve_page_no w current_item = Inl e'"
  then show "main_right_col w pdf_upload cs current_item = (Inl e', cs)"
    by (simp add: main_right_col_def)
next
  assume "0 \<le> width \<and> 0 \<le> height"
  then show "\<exists>img. build_placeholder_image w width height = Inr img
                \<and> img_mode img = ''RGB'' \<and> img_size img = (width, height)"
    by (simp add: build_placeholder_image_ok)
next
  assume "width < 0 \<or> height < 0"
  then show "build_placeholder_image w width height = Inl (Exc ''ValueError'')"
    by (rule build_placeholder_image_negative)
qed

theorem backend_unavailable_shows_placeholder_witness:
  "main_right_col (demo_world\<lparr>fitz_available := False\<rparr>) None empty_caches (JDict [(''page_no'', JInt 3)])
     = (Inr [Warning_fitz_required,
             St_image \<lparr>img_mode = ''RGB'', img_size = (900, 600), img_data = Filled (245, 245, 245),
                       img_ops = [DrawText (400, 294) ''Image Placeholder'' (80, 80, 80) DefaultFont]\<rparr>],
        empty_caches)
   \<and> build_placeholder_image demo_world 0 7 =
       Inr \<lparr>img_mode = ''RGB'', img_size = (0, 7), img_data = Filled (245, 245, 245),
            img_ops = [DrawText (- 50, - 2) ''Image Placeholder'' (80, 80, 80) DefaultFont]\<rparr>"
proof -
  let ?w = "demo_world\<lparr>fitz_available := False\<rparr>"
  have off: "\<not> fitz_available ?w" by simp
  have page: "resolve_page_no ?w (JDict [(''page_no'', JInt 3)]) = Inr 3"
    by (simp add: resolve_page_no_def dict_get_def)
  have ph: "build_placeholder_image ?w 900 600 =
      Inr \<lparr>img_mode = ''RGB'', img_size = (900, 600), img_data = Filled (245, 245, 245),
           img_ops = [DrawText (400, 294) ''Image Placeholder'' (80, 80, 80) DefaultFont]\<rparr>"
    by (simp add: build_placeholder_image_def image_new_def demo_world_def)
  have small: "build_placeholder_image demo_world 0 7 =
       Inr \<lparr>img_mode = ''RGB'', img_size = (0, 7), img_data = Filled (245, 245, 245),
            img_ops = [DrawText (- 50, - 2) ''Image Placeholder'' (80, 80, 80) DefaultFont]\<rparr>"
    by (simp add: build_placeholder_image_def image_new_def demo_world_def)
  from backend_unavailable_shows_placeholder
    [OF off, of "JDict [(''page_no'', JInt 3)]" 3 None empty_caches] page ph small
  show ?thesis by auto
qed

lemma dict_get_present: "map_of d k = Some v \<Longrightarrow> dict_get d k = v"
  by (simp add: dict_get_def)

lemma dict_get_missing: "map_of d k = None \<Longrightarrow> dict_get d k = JNull"
  by (simp add: dict_get_def)

lemma draw_bbox_without_box:
  assumes "unpack4 (dict_get d ''bbox'') = None"
  shows "draw_bbox w (JDict d) img = Inr img"
  using assms by (simp add: draw_bbox_def)

lemma show_rendered_plain:
  assumes "draw_bbox w current_item img = Inr img"
  shows "show_rendered w current_item page_no (Inr img) = Inr [St_image img]"
  using assms by (simp add: show_rendered_def)

text \<open>
  Claim C9. For a record, the page index is \<open>page_no\<close> when that field is there (also
  when \<open>page\<close> is there too), otherwise \<open>page\<close> when that is there, otherwise 0; a
  missing \<open>text\<close> gives the empty string; and without \<open>bbox\<close> the rendered image
  is shown as it is, with nothing drawn on it.
\<close>

theorem record_field_defaults:
  "(map_of d ''page_no'' = Some (JInt n) \<longrightarrow> resolve_page_no w (JDict d) = Inr n)
   \<and> (map_of d ''page_no'' = None \<and> map_of d ''page'' = Some (JInt m) \<longrightarrow>
        resolve_page_no w (JDict d) = Inr m)
   \<and> (map_of d ''page_no'' = None \<and> map_of d ''page'' = None \<longrightarrow>
        resolve_page_no w (JDict d) = Inr 0)
   \<and> (map_of d ''text'' = None \<longrightarrow> markdown_text w (JDict d) = JStr [])
   \<and> (map_of d ''bbox'' = None \<longrightarrow>
        draw_bbox w (JDict d) img = Inr img
        \<and> show_rendered w (JDict d) page_no (Inr img) = Inr [St_image img])"
proof (intro conjI impI)
  assume "map_of d ''page_no'' = Some (JInt n)"
  then have "dict_get d ''page_no'' = JInt n" by (rule dict_get_present)
  then show "resolve_page_no w (JDict d) = Inr n"
    by (simp add: resolve_page_no_def)
next
  assume "map_of d ''page_no'' = None \<and> map_of d ''page'' = Some (JInt m)"
  then have "dict_get d ''page_no'' = JNull" and "dict_get d ''page'' = JInt m"
    by (simp_all add: dict_get_def)
  then show "resolve_page_no w (JDict d) = Inr m"
    by (simp add: resolve_page_no_def)
next
  assume "map_of d ''page_no'' = None \<and> map_of d ''page'' = None"
  then have "dict_get d ''page_no'' = JNull" and "dict_get d ''page'' = JNull"
    by (simp_all add: dict_get_def)
  then show "resolve_page_no w (JDict d) = Inr 0"
    by (simp add: resolve_page_no_def)
next
  assume "map_of d ''text'' = None"
  then show "markdown_text w (JDict d) = JStr []"
    by (simp add: markdown_text_def)
next
  assume "map_of d ''bbox'' = None"
  then have "dict_get d ''bbox'' = JNull" by (rule dict_get_missing)
  then show plain: "draw_bbox w (JDict d) img = Inr img"
    by (simp add: draw_bbox_def)
  then show "show_rendered w (JDict d) page_no (Inr img) = Inr [St_image img]"
    by (rule show_rendered_plain)
qed

theorem record_field_defaults_witness:
  "resolve_page_no demo_world (JDict [(''page_no'', JInt 4), (''page'', JInt 7)]) = Inr 4
   \<and> resolve_page_no demo_world (JDict [(''page'', JInt 7), (''text'', JStr ''abc'')]) = Inr 7
   \<and> resolve_page_no demo_world (JDict []) = Inr 0
   \<and> markdown_text demo_world (JDict []) = JStr []
   \<and> draw_bbox demo_world (JDict []) (demo_image 0) = Inr (demo_image 0)
   \<and> show_rendered demo_world (JDict []) 0 (Inr (demo_image 0)) = Inr [St_image (demo_image 0)]"
  using record_field_defaults [of "[(''page_no'', JInt 4), (''page'', JInt 7)]" 4 demo_world]
        record_field_defaults [of "[(''page'', JInt 7), (''text'', JStr ''abc'')]" _ demo_world 7]
        record_field_defaults [of "[]" _ demo_world _ "demo_image 0" 0]
  by simp

lemma unpack4_Some:
  "unpack4 v = Some (x0, y0, x1, y1) \<longleftrightarrow> v = JList [x0, y0, x1, y1]"
  by (cases v rule: unpack4.cases) auto

lemma unpack4_None:
  "unpack4 v = None \<longleftrightarrow> (\<forall>x0 y0 x1 y1. v \<noteq> JList [x0, y0, x1, y1])"
  by (cases v rule: unpack4.cases) auto

text \<open>
  Claim C10. When the \<open>bbox\<close> of a record is not a list of exactly four elements,
  nothing is drawn: the rendered image is shown unchanged and no exception is raised.
  Conversely, whenever the image comes back changed, the record is a dict whose
  \<open>bbox\<close> is a list of exactly four elements.
\<close>

theorem malformed_bbox_draws_nothing:
  "((\<forall>x0 y0 x1 y1. dict_get d ''bbox'' \<noteq> JList [x0, y0, x1, y1]) \<longrightarrow>
       draw_bbox w (JDict d) img = Inr img
       \<and> show_rendered w (JDict d) page_no (Inr img) = Inr [St_image img])
   \<and> (draw_bbox w current_item img = Inr img' \<and> img' \<noteq> img \<longrightarrow>
       (\<exists>d' x0 y0 x1 y1. current_item = JDict d'
           \<and> map_of d' ''bbox'' = Some (JList [x0, y0, x1, y1])))"
proof (intro conjI impI)
  assume "\<forall>x0 y0 x1 y1. dict_get d ''bbox'' \<noteq> JList [x0, y0, x1, y1]"
  then have "unpack4 (dict_get d ''bbox'') = None"
    by (simp add: unpack4_None)
  then show plain: "draw_bbox w (JDict d) img = Inr img"
    by (rule draw_bbox_without_box)
  then show "show_rendered w (JDict d) page_no (Inr img) = Inr [St_image img]"
    by (rule show_rendered_plain)
next
  assume drawn: "draw_bbox w current_item img = Inr img' \<and> img' \<noteq> img"
  then obtain d' where item: "current_item = JDict d'"
    by (cases current_item) (auto simp: draw_bbox_def)
  from drawn item obtain box where "unpack4 (dict_get d' ''bbox'') = Some box"
    by (cases "unpack4 (dict_get d' ''bbox'')") (auto simp: draw_bbox_def split: if_splits)
  then obtain x0 y0 x1 y1 where "dict_get d' ''bbox'' = JList [x0, y0, x1, y1]"
    by (cases box) (auto simp: unpack4_Some)
  then have "map_of d' ''bbox'' = Some (JList [x0, y0, x1, y1])"
    by (cases "map_of d' ''bbox''") (simp_all add: dict_get_def)
  with item show "\<exists>d' x0 y0 x1 y1. current_item = JDict d'
           \<and> map_of d' ''bbox'' = Some (JList [x0, y0, x1, y1])"
    by blast
qed

theorem malformed_bbox_draws_nothing_witness:
  "draw_bbox demo_world (JDict [(''bbox'', JList [JInt 0, JInt 0, JInt 1])]) (demo_image 0)
     = Inr (demo_image 0)
   \<and> show_rendered demo_world (JDict [(''bbox'', JList [JInt 0, JInt 0, JInt 1])]) 0 (Inr (demo_image 0))
     = Inr [St_image (demo_image 0)]
   \<and> draw_bbox demo_world (JDict [(''bbox'', JStr ''abcd'')]) (demo_image 0) = Inr (demo_image 0)
   \<and> draw_bbox demo_world
       (JDict [(''bbox'', JList [JInt 0, JInt 0, JInt 1, JInt 1, JInt 1])]) (demo_image 0)
     = Inr (demo_image 0)"
  using malformed_bbox_draws_nothing [of "[(''bbox'', JList [JInt 0, JInt 0, JInt 1])]" demo_world "demo_image 0" 0]
        malformed_bbox_draws_nothing [of "[(''bbox'', JStr ''abcd'')]" demo_world "demo_image 0" 0]
        malformed_bbox_draws_nothing [of "[(''bbox'', JList [JInt 0, JInt 0, JInt 1, JInt 1, JInt 1])]" demo_world "demo_image 0" 0]
  by (simp add: dict_get_def)

lemma inverted_pixels:
  "bbox_pixels w (float_box (3/4, 3/4, 1/4, 1/4)) (4, 2) = Inr (3, 1, 1, 0)"
  by code_simp

text \<open>
  A box with its corners swapped, (0.75, 0.75, 0.25, 0.25) on an image of 4 by 2
  pixels, maps to the rectangle (3, 1, 1, 0). With the drawing primitive of Pillow 9.5
  and later, \<open>draw.rectangle\<close> raises ValueError on it: the overlay is not drawn, and
  the handler in \<open>main\<close> shows the placeholder instead of the page.
\<close>

theorem overlay_inverted_box_counterexample:
  "bbox_pixels strict_world (float_box (3/4, 3/4, 1/4, 1/4)) (img_size (demo_image 0)) = Inr (3, 1, 1, 0)
   \<and> draw_bbox strict_world inverted_item (demo_image 0) = Inl (Exc ''ValueError'')
   \<and> show_rendered strict_world inverted_item 0 (Inr (demo_image 0))
       = show_placeholder strict_world (Warning_render_failed 0 (Exc ''ValueError''))"
  by code_simp

text \<open>
  Claim C6, as amended. The index clamp never raises. For a box of four finite numbers,
  in any order, the overlay's own arithmetic has one exception: a float product beyond
  the range of doubles makes \<open>int\<close> raise OverflowError. It does not occur for ints and
  for floats of magnitude up to \<open>2^900\<close> on an image with sides below \<open>2^53\<close>. Without
  it the arithmetic yields the pixel rectangle, degenerate or not, which is handed to
  \<open>draw.rectangle\<close> as it is. The overlay is drawn when that primitive accepts the
  rectangle; when it does not, its ValueError is caught in \<open>main\<close>, which shows the
  placeholder, as it does for the OverflowError.
\<close>

theorem overlay_raises_only_in_primitive:
  assumes "finite_number a = Some x0" and "finite_number b = Some y0"
    and "finite_number c = Some x1" and "finite_number e = Some y1"
    and "map_of d ''bbox'' = Some (JList [a, b, c, e])"
  shows "((\<exists>r. bbox_pixels w (a, b, c, e) (img_size img) = Inr r
            \<and> (rectangle_accepted w r \<longrightarrow>
                 draw_bbox w (JDict d) img
                   = Inr (img\<lparr>img_ops := img_ops img @ [DrawRectangle r (220, 20, 60) 4]\<rparr>))
            \<and> (\<not> rectangle_accepted w r \<longrightarrow>
                 draw_bbox w (JDict d) img = Inl (Exc ''ValueError'')
                 \<and> show_rendered w (JDict d) page_no (Inr img)
                     = show_placeholder w (Warning_render_failed page_no (Exc ''ValueError''))))
          \<or> (bbox_pixels w (a, b, c, e) (img_size img) = Inl (Exc ''OverflowError'')
             \<and> draw_bbox w (JDict d) img = Inl (Exc ''OverflowError'')
             \<and> show_rendered w (JDict d) page_no (Inr img)
                 = show_placeholder w (Warning_render_failed page_no (Exc ''OverflowError''))))
       \<and> (moderate_number a \<and> moderate_number b \<and> moderate_number c \<and> moderate_number e
            \<and> \<bar>fst (img_size img)\<bar> < 2 ^ 53 \<and> \<bar>snd (img_size img)\<bar> < 2 ^ 53 \<longrightarrow>
            (\<exists>r. bbox_pixels w (a, b, c, e) (img_size img) = Inr r))
       \<and> (ensure_index_bounds index max_index = 0
          \<or> ensure_index_bounds index max_index = max_index
          \<or> ensure_index_bounds index max_index = index)"
proof (intro conjI impI)
  obtain W H where size: "img_size img = (W, H)"
    by (cases "img_size img")
  have get: "dict_get d ''bbox'' = JList [a, b, c, e]"
    using assms(5) by (rule dict_get_present)
  have draw: "draw_bbox w (JDict d) img =
      (case bbox_pixels w (a, b, c, e) (img_size img) of
         Inl x \<Rightarrow> Inl x
       | Inr r \<Rightarrow> draw_rectangle w img r (220, 20, 60) 4)"
    by (simp add: draw_bbox_def get)
  from bbox_pixels_finite_cases [OF assms(1-4), of w W H]
  consider r where "bbox_pixels w (a, b, c, e) (img_size img) = Inr r"
    | "bbox_pixels w (a, b, c, e) (img_size img) = Inl (Exc ''OverflowError'')"
    unfolding size by blast
  then show "(\<exists>r. bbox_pixels w (a, b, c, e) (img_size img) = Inr r
            \<and> (rectangle_accepted w r \<longrightarrow>
                 draw_bbox w (JDict d) img
                   = Inr (img\<lparr>img_ops := img_ops img @ [DrawRectangle r (220, 20, 60) 4]\<rparr>))
            \<and> (\<not> rectangle_accepted w r \<longrightarrow>
                 draw_bbox w (JDict d) img = Inl (Exc ''ValueError'')
                 \<and> show_rendered w (JDict d) page_no (Inr img)
                     = show_placeholder w (Warning_render_failed page_no (Exc ''ValueError''))))
          \<or> (bbox_pixels w (a, b, c, e) (img_size img) = Inl (Exc ''OverflowError'')
             \<and> draw_bbox w (JDict d) img = Inl (Exc ''OverflowError'')
             \<and> show_rendered w (JDict d) page_no (Inr img)
                 = show_placeholder w (Warning_render_failed page_no (Exc ''OverflowError'')))"
  proof cases
    case 1
    have yes: "draw_bbox w (JDict d) img
               = Inr (img\<lparr>img_ops := img_ops img @ [DrawRectangle r (220, 20, 60) 4]\<rparr>)"
      if "rectangle_accepted w r"
      using that by (simp add: draw 1 draw_rectangle_def)
    have no: "draw_bbox w (JDict d) img = Inl (Exc ''ValueError'')
          \<and> show_rendered w (JDict d) page_no (Inr img)
              = show_placeholder w (Warning_render_failed page_no (Exc ''ValueError''))"
      if "\<not> rectangle_accepted w r"
      using that by (simp add: draw 1 draw_rectangle_def show_rendered_def)
    from 1 yes no show ?thesis by blast
  next
    case 2
    then have "draw_bbox w (JDict d) img = Inl (Exc ''OverflowError'')"
      by (simp add: draw)
    moreover from this have "show_rendered w (JDict d) page_no (Inr img)
                 = show_placeholder w (Warning_render_failed page_no (Exc ''OverflowError''))"
      by (simp add: show_rendered_def)
    ultimately show ?thesis using 2 by blast
  qed
next
  assume m: "moderate_number a \<and> moderate_number b \<and> moderate_number c \<and> moderate_number e
            \<and> \<bar>fst (img_size img)\<bar> < 2 ^ 53 \<and> \<bar>snd (img_size img)\<bar> < 2 ^ 53"
  obtain W H where size: "img_size img = (W, H)"
    by (cases "img_size img")
  with m have "\<bar>W\<bar> < 2 ^ 53" "\<bar>H\<bar> < 2 ^ 53" by simp_all
  with m show "\<exists>r. bbox_pixels w (a, b, c, e) (img_size img) = Inr r"
    unfolding size by (intro bbox_pixels_moderate) simp_all
next
  show "ensure_index_bounds index max_index = 0
          \<or> ensure_index_bounds index max_index = max_index
          \<or> ensure_index_bounds index max_index = index"
    by (simp add: ensure_index_bounds_def)
qed

theorem overlay_raises_only_in_primitive_witness:
  "bbox_pixels demo_world (float_box (3/4, 3/4, 1/4, 1/4)) (img_size (demo_image 0)) = Inr (3, 1, 1, 0)
   \<and> draw_bbox demo_world inverted_item (demo_image 0)
       = Inr ((demo_image 0)\<lparr>img_ops := [DrawRectangle (3, 1, 1, 0) (220, 20, 60) 4]\<rparr>)"
proof -
  have size: "img_size (demo_image 0) = (4, 2)" and ops: "img_ops (demo_image 0) = []"
    by (simp_all add: demo_image_def)
  have px: "bbox_pixels demo_world (JFloat (Finite (3/4)), JFloat (Finite (3/4)),
              JFloat (Finite (1/4)), JFloat (Finite (1/4))) (img_size (demo_image 0)) = Inr (3, 1, 1, 0)"
    using inverted_pixels [of demo_world] by (simp add: float_box_def size)
  have ok: "rectangle_accepted demo_world r" for r
    by (simp add: demo_world_def)
  have "finite_number (JFloat (Finite (3/4))) = Some (3/4)"
       "finite_number (JFloat (Finite (3/4))) = Some (3/4)"
       "finite_number (JFloat (Finite (1/4))) = Some (1/4)"
       "finite_number (JFloat (Finite (1/4))) = Some (1/4)"
       "map_of [(''bbox'', JList [JFloat (Finite (3/4)), JFloat (Finite (3/4)),
                              JFloat (Finite (1/4)), JFloat (Finite (1/4))])] ''bbox''
          = Some (JList [JFloat (Finite (3/4)), JFloat (Finite (3/4)),
                              JFloat (Finite (1/4)), JFloat (Finite (1/4))])"
    by simp_all
  from overlay_raises_only_in_primitive [OF this, of demo_world "demo_image 0"]
  show ?thesis
    by (simp add: px ok ops inverted_item_def float_box_def)
qed

end
